theory Spec2Isabelle
  imports Complex_Main "HOL-Library.Multiset"
begin

section \<open>Numeric model\<close>

text \<open>
  The importer works on C++ \<open>float\<close>/\<open>double\<close> samples and 32-bit \<open>int\<close> coordinates.
  Finite floating-point values are represented by the real number they denote (rounding is
  not modelled); the two limits of \<open>std::numeric_limits<float>\<close> the source uses are the
  exact reals below. Machine integers are \<open>int\<close> with the two's-complement wrap-around
  written out by \<open>wrap32\<close>.
\<close>

definition FLT_MAX :: real where
  \<comment> \<open>\<open>std::numeric_limits<float>::max()\<close>, the largest finite float: (2 - 2^-23) * 2^127\<close>
  "FLT_MAX = 340282346638528859811704183484516925440"

definition FLT_MIN :: real where
  \<comment> \<open>\<open>std::numeric_limits<float>::min()\<close>, the smallest positive normalised float: 2^-126\<close>
  "FLT_MIN = 1 / 2 ^ 126"

definition INT_MAX :: int where
  "INT_MAX = 2147483647"

definition INT_MIN :: int where
  "INT_MIN = - 2147483648"

definition wrap32 :: "int \<Rightarrow> int" where
  \<comment> \<open>the value an \<open>int\<close> holds after an arithmetic result is reduced to 32 bits\<close>
  "wrap32 i = (i + 2147483648) mod 4294967296 - 2147483648"

section \<open>ValueRange\<close>

record FloatRange =
  m_min :: real
  m_max :: real

definition ValueRange :: FloatRange where
  \<comment> \<open>the default constructor\<close>
  "ValueRange = \<lparr>m_min = FLT_MAX, m_max = FLT_MIN\<rparr>"

definition getMin :: "FloatRange \<Rightarrow> real" where
  "getMin r = m_min r"

definition getMax :: "FloatRange \<Rightarrow> real" where
  "getMax r = m_max r"

definition addValue :: "FloatRange \<Rightarrow> real \<Rightarrow> FloatRange" where
  "addValue r v = r\<lparr>m_min := min (m_min r) v, m_max := max (m_max r) v\<rparr>"

definition merge_range :: "FloatRange \<Rightarrow> FloatRange \<Rightarrow> FloatRange" where
  \<comment> \<open>one iteration of the merge loop of \<open>sampleVolume\<close>: range \<open>a\<close> is folded into \<open>b\<close>\<close>
  "merge_range a b = addValue (addValue b (getMin a)) (getMax a)"

definition merge_ranges :: "FloatRange list \<Rightarrow> FloatRange" where
  \<comment> \<open>\<open>out_value_range = FloatRange(); for (r : ranges) { addValue(r.getMin()); addValue(r.getMax()); }\<close>\<close>
  "merge_ranges rs = fold merge_range rs ValueRange"

definition range_of :: "real list \<Rightarrow> FloatRange" where
  \<comment> \<open>the accumulator of one partition: a default range with the partition's samples added in order\<close>
  "range_of vs = fold (\<lambda>v r. addValue r v) vs ValueRange"

section \<open>OpenVDB value types\<close>

text \<open>
  The importer uses a handful of OpenVDB value types. \<open>Coord\<close> (and \<open>Vec3i\<close>, which
  is modelled by the same type) is a triple of 32-bit ints, \<open>Vec3d\<close> a triple of doubles,
  \<open>CoordBBox\<close> an inclusive integer box and \<open>BBoxd\<close> a world-space box. Their arithmetic
  is componentwise.
\<close>

datatype Coord = Coord (cx: int) (cy: int) (cz: int)

datatype Vec3d = Vec3d (vx: real) (vy: real) (vz: real)

datatype CoordBBox = CoordBBox (bmin: Coord) (bmax: Coord)

datatype BBoxd = BBoxd (wmin: Vec3d) (wmax: Vec3d)

definition CoordBBox_default :: CoordBBox where
  \<comment> \<open>the default constructor \<open>CoordBBox()\<close>, written \<open>{}\<close> in the source: the empty box\<close>
  "CoordBBox_default = CoordBBox (Coord INT_MAX INT_MAX INT_MAX) (Coord INT_MIN INT_MIN INT_MIN)"

definition bbox_empty :: "CoordBBox \<Rightarrow> bool" where
  "bbox_empty b \<longleftrightarrow>
     cx (bmin b) > cx (bmax b) \<or> cy (bmin b) > cy (bmax b) \<or> cz (bmin b) > cz (bmax b)"

definition coord_sub :: "Coord \<Rightarrow> Coord \<Rightarrow> Coord" where
  "coord_sub a b = Coord (wrap32 (cx a - cx b)) (wrap32 (cy a - cy b)) (wrap32 (cz a - cz b))"

definition offsetBy :: "int \<Rightarrow> Coord \<Rightarrow> Coord" where
  "offsetBy n a = Coord (wrap32 (cx a + n)) (wrap32 (cy a + n)) (wrap32 (cz a + n))"

definition dot :: "Coord \<Rightarrow> Coord \<Rightarrow> int" where
  \<comment> \<open>\<open>Vec3i::dot\<close>, computed in \<open>int\<close>\<close>
  "dot a b = wrap32 (cx a * cx b + cy a * cy b + cz a * cz b)"

definition bbox_dim :: "CoordBBox \<Rightarrow> Coord" where
  "bbox_dim b = coord_sub (offsetBy 1 (bmax b)) (bmin b)"

definition bbox_volume :: "CoordBBox \<Rightarrow> int" where
  \<comment> \<open>\<open>CoordBBox::volume\<close>: the product of the dimensions as unsigned 64-bit integers\<close>
  "bbox_volume b =
     (let d = bbox_dim b
      in ((cx d mod 2 ^ 64) * (cy d mod 2 ^ 64) * (cz d mod 2 ^ 64)) mod 2 ^ 64)"

definition asVec3d :: "Coord \<Rightarrow> Vec3d" where
  "asVec3d c = Vec3d (real_of_int (cx c)) (real_of_int (cy c)) (real_of_int (cz c))"

definition vec_add :: "Vec3d \<Rightarrow> Vec3d \<Rightarrow> Vec3d" where
  "vec_add a b = Vec3d (vx a + vx b) (vy a + vy b) (vz a + vz b)"

definition vec_sub :: "Vec3d \<Rightarrow> Vec3d \<Rightarrow> Vec3d" where
  "vec_sub a b = Vec3d (vx a - vx b) (vy a - vy b) (vz a - vz b)"

definition vec_add_scalar :: "Vec3d \<Rightarrow> real \<Rightarrow> Vec3d" where
  "vec_add_scalar a s = Vec3d (vx a + s) (vy a + s) (vz a + s)"

definition vec_mul :: "Vec3d \<Rightarrow> Vec3d \<Rightarrow> Vec3d" where
  "vec_mul a b = Vec3d (vx a * vx b) (vy a * vy b) (vz a * vz b)"

definition vec_div :: "Vec3d \<Rightarrow> Vec3d \<Rightarrow> Vec3d" where
  "vec_div a b = Vec3d (vx a / vx b) (vy a / vy b) (vz a / vz b)"

definition bboxd_extents :: "BBoxd \<Rightarrow> Vec3d" where
  \<comment> \<open>\<open>BBoxd::extents\<close>\<close>
  "bboxd_extents b = vec_sub (wmax b) (wmin b)"

section \<open>The grid, as the importer sees it\<close>

text \<open>
  The grid is an OpenVDB object. The importer uses three of its operations, which are the
  fields of the record: the typed metadata lookup \<open>metaValue<Vec3i>(name)\<close>, which throws
  an \<open>openvdb::Exception\<close> (\<open>LookupError\<close> for an absent key, \<open>TypeError\<close> for a value of
  another type); the transform's \<open>indexToWorld\<close> on an index-space box; and the world-space
  trilinear sampler \<open>GridSampler<FloatGrid, BoxSampler>::wsSample\<close>.
\<close>

datatype vdb_exception = LookupError | TypeError

record FloatGrid =
  metaValue :: "string \<Rightarrow> vdb_exception + Coord"
  indexToWorld :: "CoordBBox \<Rightarrow> BBoxd"
  wsSample :: "Vec3d \<Rightarrow> real"

section \<open>getIndexSpaceBoundingBox\<close>

definition bbox_try_block :: "FloatGrid \<Rightarrow> vdb_exception + CoordBBox" where
  \<comment> \<open>the body of the \<open>try\<close>: an exception of either lookup leaves it\<close>
  "bbox_try_block grid =
     (case metaValue grid ''file_bbox_min'' of
        Inl e \<Rightarrow> Inl e
      | Inr file_bbox_min \<Rightarrow>
          if cx file_bbox_min = INT_MAX \<or> cy file_bbox_min = INT_MAX \<or> cz file_bbox_min = INT_MAX
          then Inr CoordBBox_default
          else
            (case metaValue grid ''file_bbox_max'' of
               Inl e \<Rightarrow> Inl e
             | Inr file_bbox_max \<Rightarrow>
                 if cx file_bbox_max = INT_MIN \<or> cy file_bbox_max = INT_MIN \<or> cz file_bbox_max = INT_MIN
                 then Inr CoordBBox_default
                 else Inr (CoordBBox file_bbox_min file_bbox_max)))"

definition getIndexSpaceBoundingBox :: "FloatGrid \<Rightarrow> CoordBBox" where
  \<comment> \<open>\<open>try { ... } catch (openvdb::Exception e) { return {}; }\<close>\<close>
  "getIndexSpaceBoundingBox grid =
     (case bbox_try_block grid of Inl e \<Rightarrow> CoordBBox_default | Inr b \<Rightarrow> b)"

section \<open>unlerp\<close>

text \<open>
  The destination buffer holds floats, and the remapping divides. A buffer entry is
  therefore either a finite value or one of the IEEE special values a division by zero
  produces: \<open>0 / 0\<close> is NaN, a non-zero numerator over zero is an infinity. The divisor
  \<open>b - a\<close> of two equal floats is \<open>+0\<close>.
\<close>

datatype fvalue = Finite real | PosInf | NegInf | NaN

fun fsub :: "fvalue \<Rightarrow> real \<Rightarrow> fvalue" where
  "fsub (Finite x) a = Finite (x - a)"
| "fsub PosInf a = PosInf"
| "fsub NegInf a = NegInf"
| "fsub NaN a = NaN"

fun fdiv :: "fvalue \<Rightarrow> real \<Rightarrow> fvalue" where
  "fdiv (Finite n) d =
     (if d = 0 then (if n = 0 then NaN else if 0 < n then PosInf else NegInf)
      else Finite (n / d))"
| "fdiv PosInf d = (if 0 \<le> d then PosInf else NegInf)"
| "fdiv NegInf d = (if 0 \<le> d then NegInf else PosInf)"
| "fdiv NaN d = NaN"

definition unlerp :: "real \<Rightarrow> real \<Rightarrow> fvalue \<Rightarrow> fvalue" where
  \<comment> \<open>\<open>return (x - a) / (b - a);\<close>\<close>
  "unlerp a b x = fdiv (fsub x a) (b - a)"

section \<open>sampleVolume\<close>

text \<open>
  The destination is a raw \<open>float*\<close>; it is modelled as a store from offsets (relative to
  the pointer) to values, so a store at any computed offset is defined. Besides the
  buffer and the thread-local ranges, the state of the first pass carries two logs that
  the source does not have: the stores performed (offset and value, in order) and the
  cells the sampling function was called on.
\<close>

type_synonym buffer = "int \<Rightarrow> fvalue"

record cell_state =
  cs_samples :: buffer
  cs_range :: FloatRange
  cs_stores :: "(int \<times> real) list"
  cs_calls :: "Coord list"

definition cell_body :: "(Coord \<Rightarrow> real) \<Rightarrow> Coord \<Rightarrow> int \<Rightarrow> int \<Rightarrow> int \<Rightarrow> cell_state \<Rightarrow> cell_state" where
  \<comment> \<open>the body of the innermost loop; \<open>linear_index\<close> is a multiple of 4 after the wrap, so
      adding 1, 2 or 3 to it cannot overflow\<close>
  "cell_body sampling_func stride x y z st =
     (let domain_index = Coord x y z;
          linear_index = wrap32 (dot domain_index stride * 4);
          sample_value = sampling_func domain_index
      in st\<lparr>cs_samples := (cs_samples st)
                (linear_index + 0 := Finite sample_value,
                 linear_index + 1 := Finite sample_value,
                 linear_index + 2 := Finite sample_value,
                 linear_index + 3 := Finite sample_value),
            cs_range := addValue (cs_range st) sample_value,
            cs_stores := cs_stores st @
                [(linear_index + 0, sample_value), (linear_index + 1, sample_value),
                 (linear_index + 2, sample_value), (linear_index + 3, sample_value)],
            cs_calls := cs_calls st @ [domain_index]\<rparr>)"

partial_function (option) loop_x ::
  "(Coord \<Rightarrow> real) \<Rightarrow> Coord \<Rightarrow> CoordBBox \<Rightarrow> int \<Rightarrow> int \<Rightarrow> int \<Rightarrow> cell_state \<Rightarrow> cell_state option" where
  \<comment> \<open>\<open>for (x = ...; x <= bbox.max().x(); ++x)\<close>, from the current \<open>x\<close>\<close>
  "loop_x sampling_func stride bbox z y x st =
     (if x \<le> cx (bmax bbox)
      then loop_x sampling_func stride bbox z y (wrap32 (x + 1))
             (cell_body sampling_func stride x y z st)
      else Some st)"

partial_function (option) loop_y ::
  "(Coord \<Rightarrow> real) \<Rightarrow> Coord \<Rightarrow> CoordBBox \<Rightarrow> int \<Rightarrow> int \<Rightarrow> cell_state \<Rightarrow> cell_state option" where
  "loop_y sampling_func stride bbox z y st =
     (if y \<le> cy (bmax bbox)
      then Option.bind (loop_x sampling_func stride bbox z y (cx (bmin bbox)) st)
             (\<lambda>st'. loop_y sampling_func stride bbox z (wrap32 (y + 1)) st')
      else Some st)"

partial_function (option) loop_z ::
  "(Coord \<Rightarrow> real) \<Rightarrow> Coord \<Rightarrow> CoordBBox \<Rightarrow> int \<Rightarrow> cell_state \<Rightarrow> cell_state option" where
  "loop_z sampling_func stride bbox z st =
     (if z \<le> cz (bmax bbox)
      then Option.bind (loop_y sampling_func stride bbox z (cy (bmin bbox)) st)
             (\<lambda>st'. loop_z sampling_func stride bbox (wrap32 (z + 1)) st')
      else Some st)"

record sample_state =
  out_samples :: buffer
  ranges :: "(nat \<times> FloatRange) list"
  stores :: "(int \<times> real) list"
  calls :: "Coord list"

definition ranges_local :: "nat \<Rightarrow> (nat \<times> FloatRange) list \<Rightarrow> FloatRange" where
  \<comment> \<open>\<open>ranges.local()\<close>: the calling thread's element, default-constructed on first use\<close>
  "ranges_local t rs = (case map_of rs t of None \<Rightarrow> ValueRange | Some r \<Rightarrow> r)"

definition ranges_store :: "nat \<Rightarrow> FloatRange \<Rightarrow> (nat \<times> FloatRange) list \<Rightarrow> (nat \<times> FloatRange) list" where
  \<comment> \<open>the element of thread \<open>t\<close> after the updates made through the reference; a new
      element goes to the end of the container\<close>
  "ranges_store t r rs =
     (if t \<in> fst ` set rs then map (\<lambda>(k, v). if k = t then (k, r) else (k, v)) rs
      else rs @ [(t, r)])"

definition sample_bbox ::
  "(Coord \<Rightarrow> real) \<Rightarrow> Coord \<Rightarrow> nat \<Rightarrow> CoordBBox \<Rightarrow> sample_state \<Rightarrow> sample_state option" where
  \<comment> \<open>the body given to the first \<open>tbb::parallel_for\<close>, run by thread \<open>t\<close> on the box \<open>bbox\<close>\<close>
  "sample_bbox sampling_func stride t bbox st =
     Option.bind
       (loop_z sampling_func stride bbox (cz (bmin bbox))
          \<lparr>cs_samples = out_samples st, cs_range = ranges_local t (ranges st),
           cs_stores = stores st, cs_calls = calls st\<rparr>)
       (\<lambda>cs. Some \<lparr>out_samples = cs_samples cs,
                   ranges = ranges_store t (cs_range cs) (ranges st),
                   stores = cs_stores cs, calls = cs_calls cs\<rparr>)"

text \<open>
  \<open>tbb::parallel_for\<close> splits the range into sub-boxes and runs the body on each of them on
  some worker thread. The schedule, a list of (thread, sub-box) pairs in the order the
  bodies take effect, is a parameter of the model. The bodies store to disjoint cells and
  accumulate into thread-local ranges, so running them one after the other in that order
  gives the state the parallel run ends in.
\<close>

type_synonym schedule = "(nat \<times> CoordBBox) list"

fun parallel_for :: "schedule \<Rightarrow> (nat \<Rightarrow> CoordBBox \<Rightarrow> 's \<Rightarrow> 's option) \<Rightarrow> 's \<Rightarrow> 's option" where
  "parallel_for [] body st = Some st"
| "parallel_for ((t, b) # rest) body st = Option.bind (body t b st) (parallel_for rest body)"

definition bbox_cells :: "CoordBBox \<Rightarrow> Coord list" where
  \<comment> \<open>the coordinates of a box, in the order the three loops visit them\<close>
  "bbox_cells b =
     concat (map (\<lambda>z. concat (map (\<lambda>y. map (\<lambda>x. Coord x y z)
       [cx (bmin b)..cx (bmax b)]) [cy (bmin b)..cy (bmax b)])) [cz (bmin b)..cz (bmax b)])"

definition valid_schedule :: "CoordBBox \<Rightarrow> schedule \<Rightarrow> bool" where
  \<comment> \<open>what \<open>tbb::parallel_for\<close> guarantees of the sub-ranges: none is empty, and every
      coordinate of the range lies in exactly one of them\<close>
  "valid_schedule domain sched \<longleftrightarrow>
     list_all (\<lambda>(t, b). \<not> bbox_empty b) sched \<and>
     mset (concat (map (\<lambda>(t, b). bbox_cells b) sched)) = mset (bbox_cells domain)"

definition normalize_samples :: "FloatRange \<Rightarrow> nat \<Rightarrow> buffer \<Rightarrow> buffer" where
  \<comment> \<open>the second \<open>parallel_for\<close>, over the flat indices \<open>0 .. size - 1\<close>; every index is
      rewritten from its own old value only, so the order of the blocks does not matter\<close>
  "normalize_samples out_value_range n buf =
     fold (\<lambda>i b. b(int i := unlerp (getMin out_value_range) (getMax out_value_range) (b (int i))))
       [0..<n] buf"

record volume_result =
  returned :: "bool option"
  value_range :: FloatRange
  samples :: buffer
  stored :: "(int \<times> real) list"
  called :: "Coord list"

definition sampleVolume ::
  "schedule \<Rightarrow> Coord \<Rightarrow> (Coord \<Rightarrow> real) \<Rightarrow> FloatRange \<Rightarrow> buffer \<Rightarrow> volume_result option" where
  \<comment> \<open>\<open>returned\<close> is the \<open>bool\<close> the function hands back: \<open>Some False\<close> on the early return,
      \<open>None\<close> where control reaches the closing brace with no \<open>return\<close> statement\<close>
  "sampleVolume sched extents sampling_func out_value_range samples0 =
     (let domain = CoordBBox (Coord 0 0 0) (coord_sub extents (Coord 1 1 1))
      in if bbox_empty domain
         then Some \<lparr>returned = Some False, value_range = out_value_range, samples = samples0,
                    stored = [], called = []\<rparr>
         else
           let num_voxels = bbox_volume domain;
               stride = Coord 1 (cx extents) (wrap32 (cx extents * cy extents))
           in Option.bind
                (parallel_for sched (sample_bbox sampling_func stride)
                   \<lparr>out_samples = samples0, ranges = [], stores = [], calls = []\<rparr>)
                (\<lambda>st.
                   let merged = merge_ranges (map snd (ranges st));
                       size = wrap32 ((num_voxels * 4) mod 2 ^ 64);
                       n = nat (size mod 2 ^ 64)
                   in Some \<lparr>returned = None, value_range = merged,
                            samples = normalize_samples merged n (out_samples st),
                            stored = stores st, called = calls st\<rparr>))"

section \<open>sampleGrid\<close>

text \<open>
  The sampling function divides by the lattice extents. \<open>sampleVolume\<close> calls it only on
  the cells of a non-empty domain, where every extent is at least 1, so the quotient by
  zero, which is 0 in HOL and not a float, is never the position of a sample that is
  taken.
\<close>

record grid_result =
  g_returned :: "bool option"
  g_value_range :: FloatRange
  g_scale :: Vec3d
  g_samples :: buffer
  g_stored :: "(int \<times> real) list"
  g_called :: "Coord list"

definition sampling_func :: "FloatGrid \<Rightarrow> BBoxd \<Rightarrow> Vec3d \<Rightarrow> Coord \<Rightarrow> real" where
  \<comment> \<open>the lambda of \<open>sampleGrid\<close>; the integer cell index is converted to \<open>Vec3d\<close> at the call\<close>
  "sampling_func grid bbox_world domain_extents domain_index =
     (let sample_pos_ws =
            vec_add (wmin bbox_world)
              (vec_mul (vec_div (vec_add_scalar (asVec3d domain_index) 0.5) domain_extents)
                 (bboxd_extents bbox_world))
      in wsSample grid sample_pos_ws)"

definition sampleGrid ::
  "schedule \<Rightarrow> FloatGrid \<Rightarrow> Coord \<Rightarrow> FloatRange \<Rightarrow> buffer \<Rightarrow> grid_result option" where
  "sampleGrid sched grid sampling_extents value_range0 out_data =
     (let grid_bbox_is = getIndexSpaceBoundingBox grid;
          bbox_world = indexToWorld grid grid_bbox_is;
          scale = bboxd_extents bbox_world
      in if bbox_empty grid_bbox_is
         then Some \<lparr>g_returned = Some False, g_value_range = value_range0, g_scale = scale,
                    g_samples = out_data, g_stored = [], g_called = []\<rparr>
         else
           let domain_extents = asVec3d sampling_extents
           in Option.bind
                (sampleVolume sched sampling_extents
                   (sampling_func grid bbox_world domain_extents) value_range0 out_data)
                (\<lambda>r. Some \<lparr>g_returned = None, g_value_range = value_range r, g_scale = scale,
                            g_samples = samples r, g_stored = stored r, g_called = called r\<rparr>))"

section \<open>oiVolume\<close>

text \<open>
  Modelled from the spec: the declarations of \<open>oiVolumeSummary\<close> and \<open>oiVolumeData\<close>,
  which are in the header \<open>OpenVDBImporter.h\<close>. The summary record has the ten fields the
  specification lists: the five integers the constructor call in \<open>oiVolume::oiVolume\<close>
  passes and the five fields \<open>fillTextureBuffer\<close> assigns. What the summary's constructor
  puts into the latter five is not known and is a parameter of \<open>new_oiVolumeSummary\<close>.
  \<open>voxels\<close> is the destination pointer, \<open>None\<close> when null.
\<close>

record oiVolumeSummary =
  voxel_count :: int
  width :: int
  height :: int
  depth :: int
  texture_format :: int
  min_value :: real
  max_value :: real
  x_scale :: real
  y_scale :: real
  z_scale :: real

record oiVolumeData =
  voxels :: "buffer option"

record oiVolume =
  m_grid :: FloatGrid
  m_extents :: Coord
  m_scaleFactor :: real
  m_summary :: oiVolumeSummary

definition new_oiVolumeSummary ::
  "real \<times> real \<times> real \<times> real \<times> real \<Rightarrow> int \<Rightarrow> int \<Rightarrow> int \<Rightarrow> int \<Rightarrow> int \<Rightarrow> oiVolumeSummary" where
  "new_oiVolumeSummary init vc w h d tf =
     (case init of (mn, mx, sx, sy, sz) \<Rightarrow>
        \<lparr>voxel_count = vc, width = w, height = h, depth = d, texture_format = tf,
         min_value = mn, max_value = mx, x_scale = sx, y_scale = sy, z_scale = sz\<rparr>)"

definition new_oiVolume ::
  "real \<times> real \<times> real \<times> real \<times> real \<Rightarrow> FloatGrid \<Rightarrow> Coord \<Rightarrow> oiVolume" where
  \<comment> \<open>the constructor \<open>oiVolume::oiVolume(grid, extents)\<close>\<close>
  "new_oiVolume init grid extents =
     (let voxel_count = wrap32 (wrap32 (cx extents * cy extents) * cz extents);
          texture_format = 20
      in \<lparr>m_grid = grid, m_extents = extents, m_scaleFactor = 1,
          m_summary = new_oiVolumeSummary init voxel_count (cx extents) (cy extents) (cz extents)
                        texture_format\<rparr>)"

definition reset :: "oiVolume \<Rightarrow> oiVolume" where
  "reset vol = vol"

definition setScaleFactor :: "real \<Rightarrow> oiVolume \<Rightarrow> oiVolume" where
  "setScaleFactor scaleFactor vol = vol\<lparr>m_scaleFactor := scaleFactor\<rparr>"

record fill_result =
  f_volume :: oiVolume
  f_data :: oiVolumeData
  f_sampled :: "bool option option"
  f_stored :: "(int \<times> real) list"
  f_called :: "Coord list"

definition fillTextureBuffer :: "schedule \<Rightarrow> oiVolume \<Rightarrow> oiVolumeData \<Rightarrow> fill_result option" where
  \<comment> \<open>the function is \<open>void\<close>: what it gives its caller is the updated summary and buffer.
      \<open>f_sampled\<close> records what \<open>sampleGrid\<close> returned to it (\<open>None\<close> when it was not
      called), a value the function discards\<close>
  "fillTextureBuffer sched vol data =
     (case voxels data of
        None \<Rightarrow> Some \<lparr>f_volume = vol, f_data = data, f_sampled = None, f_stored = [], f_called = []\<rparr>
      | Some buf \<Rightarrow>
          let extents = Coord (width (m_summary vol)) (height (m_summary vol)) (depth (m_summary vol));
              value_range0 = ValueRange
          in Option.bind (sampleGrid sched (m_grid vol) extents value_range0 buf)
               (\<lambda>r. Some
                  \<lparr>f_volume = vol\<lparr>m_summary := (m_summary vol)
                       \<lparr>min_value := getMin (g_value_range r),
                        max_value := getMax (g_value_range r),
                        x_scale := vx (g_scale r) * m_scaleFactor vol,
                        y_scale := vy (g_scale r) * m_scaleFactor vol,
                        z_scale := vz (g_scale r) * m_scaleFactor vol\<rparr>\<rparr>,
                   f_data = data\<lparr>voxels := Some (g_samples r)\<rparr>,
                   f_sampled = Some (g_returned r),
                   f_stored = g_stored r, f_called = g_called r\<rparr>))"

definition getSummary :: "oiVolume \<Rightarrow> oiVolumeSummary" where
  "getSummary vol = m_summary vol"

datatype operation = SetScaleFactor real | FillTextureBuffer schedule oiVolumeData | Reset

fun run_op :: "operation \<Rightarrow> oiVolume \<Rightarrow> oiVolume option" where
  "run_op (SetScaleFactor k) vol = Some (setScaleFactor k vol)"
| "run_op (FillTextureBuffer sched data) vol = map_option f_volume (fillTextureBuffer sched vol data)"
| "run_op Reset vol = Some (reset vol)"

fun run_ops :: "operation list \<Rightarrow> oiVolume \<Rightarrow> oiVolume option" where
  "run_ops [] vol = Some vol"
| "run_ops (op # ops) vol = Option.bind (run_op op vol) (run_ops ops)"

section \<open>The sampling position of the specification\<close>

definition spec_cell_center :: "Vec3d \<Rightarrow> Vec3d \<Rightarrow> Coord \<Rightarrow> Coord \<Rightarrow> Vec3d" where
  \<comment> \<open>the specification's \<open>world_min + (cell_index + 0.5) / lattice_extents * world_extents\<close>,
      axis by axis\<close>
  "spec_cell_center world_min world_extents lattice_extents cell_index =
     Vec3d
       (vx world_min + (real_of_int (cx cell_index) + 0.5) / real_of_int (cx lattice_extents) * vx world_extents)
       (vy world_min + (real_of_int (cy cell_index) + 0.5) / real_of_int (cy lattice_extents) * vy world_extents)
       (vz world_min + (real_of_int (cz cell_index) + 0.5) / real_of_int (cz lattice_extents) * vz world_extents)"

section \<open>Concrete grids and volumes\<close>

text \<open>
  The grids of the specification's scenarios: stored bounds \<open>(0,0,0)\<close> and \<open>(1,1,1)\<close>, an
  identity transform and a given field; and a grid with no stored bounds at all.
\<close>

definition identity_transform :: "CoordBBox \<Rightarrow> BBoxd" where
  \<comment> \<open>\<open>Transform::indexToWorld\<close> of the identity transform: the axis-aligned box around
      the images of the corners, so its minimum is the componentwise smaller corner\<close>
  "identity_transform b =
     BBoxd
       (Vec3d (min (vx (asVec3d (bmin b))) (vx (asVec3d (bmax b))))
              (min (vy (asVec3d (bmin b))) (vy (asVec3d (bmax b))))
              (min (vz (asVec3d (bmin b))) (vz (asVec3d (bmax b)))))
       (Vec3d (max (vx (asVec3d (bmin b))) (vx (asVec3d (bmax b))))
              (max (vy (asVec3d (bmin b))) (vy (asVec3d (bmax b))))
              (max (vz (asVec3d (bmin b))) (vz (asVec3d (bmax b)))))"

definition example_metadata :: "string \<Rightarrow> vdb_exception + Coord" where
  "example_metadata k =
     (if k = ''file_bbox_min'' then Inr (Coord 0 0 0)
      else if k = ''file_bbox_max'' then Inr (Coord 1 1 1)
      else Inl LookupError)"

definition example_grid :: "(Vec3d \<Rightarrow> real) \<Rightarrow> FloatGrid" where
  "example_grid fld =
     \<lparr>metaValue = example_metadata, indexToWorld = identity_transform, wsSample = fld\<rparr>"

definition example_grid_no_metadata :: FloatGrid where
  "example_grid_no_metadata =
     \<lparr>metaValue = (\<lambda>k. Inl LookupError), indexToWorld = identity_transform,
      wsSample = (\<lambda>p. 5)\<rparr>"

definition constant_field :: "real \<Rightarrow> Vec3d \<Rightarrow> real" where
  "constant_field v p = v"

definition ramp_field :: "Vec3d \<Rightarrow> real" where
  \<comment> \<open>a field that varies linearly along the first axis and is negative on the unit box\<close>
  "ramp_field p = 2 * vx p - 5 / 2"

definition example_buffer :: buffer where
  \<comment> \<open>a destination pre-filled with the value 9\<close>
  "example_buffer = (\<lambda>i. Finite 9)"

definition example_data :: oiVolumeData where
  "example_data = \<lparr>voxels = Some example_buffer\<rparr>"

definition example_volume :: "FloatGrid \<Rightarrow> Coord \<Rightarrow> oiVolume" where
  "example_volume grid extents = new_oiVolume (0, 1, 1, 1, 1) grid extents"

definition one_box :: "Coord \<Rightarrow> schedule" where
  \<comment> \<open>the schedule that runs the whole domain as one box on thread 0\<close>
  "one_box extents = [(0, CoordBBox (Coord 0 0 0) (coord_sub extents (Coord 1 1 1)))]"

definition two_slabs :: schedule where
  \<comment> \<open>a 2 x 2 x 2 lattice split into its two z-slabs, the upper one run first, on another thread\<close>
  "two_slabs = [(0, CoordBBox (Coord 0 0 1) (Coord 1 1 1)), (1, CoordBBox (Coord 0 0 0) (Coord 1 1 0))]"

definition large_volume :: oiVolume where
  \<comment> \<open>a 2048 x 2048 x 129 lattice: 4 * 2048 * 2048 * 129 exceeds \<open>INT_MAX\<close>\<close>
  "large_volume = example_volume (example_grid (constant_field 5)) (Coord 2048 2048 129)"

section \<open>Auxiliary notions for the proofs\<close>

text \<open>
  The definitions of this section are not part of the program: they name what the loops
  of the first pass compute, so that the lemmas can say it.
\<close>

definition linear_index :: "Coord \<Rightarrow> Coord \<Rightarrow> int" where
  \<comment> \<open>the offset \<open>linear_index\<close> the innermost loop computes for a cell\<close>
  "linear_index stride c = wrap32 (dot c stride * 4)"

definition cell_stores :: "(Coord \<Rightarrow> real) \<Rightarrow> Coord \<Rightarrow> Coord \<Rightarrow> (int \<times> real) list" where
  \<comment> \<open>the four stores the innermost loop makes for a cell\<close>
  "cell_stores f stride c =
     [(linear_index stride c + 0, f c), (linear_index stride c + 1, f c),
      (linear_index stride c + 2, f c), (linear_index stride c + 3, f c)]"

definition apply_stores :: "(int \<times> real) list \<Rightarrow> buffer \<Rightarrow> buffer" where
  \<comment> \<open>a buffer after a sequence of stores\<close>
  "apply_stores ws buf = fold (\<lambda>(a, v) b. b(a := Finite v)) ws buf"

definition visit_cells :: "(Coord \<Rightarrow> real) \<Rightarrow> Coord \<Rightarrow> Coord list \<Rightarrow> cell_state \<Rightarrow> cell_state" where
  \<comment> \<open>the state after the innermost loop body has run on a list of cells\<close>
  "visit_cells f stride cs st =
     \<lparr>cs_samples = apply_stores (concat (map (cell_stores f stride) cs)) (cs_samples st),
      cs_range = fold (\<lambda>v r. addValue r v) (map f cs) (cs_range st),
      cs_stores = cs_stores st @ concat (map (cell_stores f stride) cs),
      cs_calls = cs_calls st @ cs\<rparr>"

definition sched_cells :: "schedule \<Rightarrow> Coord list" where
  \<comment> \<open>the cells a schedule visits, in order\<close>
  "sched_cells sched = concat (map (\<lambda>(t, b). bbox_cells b) sched)"

definition sched_ranges ::
  "(Coord \<Rightarrow> real) \<Rightarrow> schedule \<Rightarrow> (nat \<times> FloatRange) list \<Rightarrow> (nat \<times> FloatRange) list" where
  \<comment> \<open>the thread-local ranges after a schedule has run\<close>
  "sched_ranges f sched rs =
     fold (\<lambda>(t, b) rs. ranges_store t
             (fold (\<lambda>v r. addValue r v) (map f (bbox_cells b)) (ranges_local t rs)) rs) sched rs"

definition in_int_range :: "CoordBBox \<Rightarrow> bool" where
  \<comment> \<open>the corners of a box leave room for the loop counters' last increment\<close>
  "in_int_range b \<longleftrightarrow>
     - 2147483648 \<le> cx (bmin b) \<and> cx (bmax b) < 2147483647 \<and>
     - 2147483648 \<le> cy (bmin b) \<and> cy (bmax b) < 2147483647 \<and>
     - 2147483648 \<le> cz (bmin b) \<and> cz (bmax b) < 2147483647"

definition samples_local :: "nat \<Rightarrow> (nat \<times> real list) list \<Rightarrow> real list" where
  \<comment> \<open>the samples a thread has accumulated so far\<close>
  "samples_local t ps = (case map_of ps t of None \<Rightarrow> [] | Some vs \<Rightarrow> vs)"

definition samples_store :: "nat \<Rightarrow> real list \<Rightarrow> (nat \<times> real list) list \<Rightarrow> (nat \<times> real list) list" where
  \<comment> \<open>the per-thread sample lists, updated like the ranges\<close>
  "samples_store t vs ps =
     (if t \<in> fst ` set ps then map (\<lambda>(k, v). if k = t then (k, vs) else (k, v)) ps
      else ps @ [(t, vs)])"

definition sched_samples ::
  "(Coord \<Rightarrow> real) \<Rightarrow> schedule \<Rightarrow> (nat \<times> real list) list \<Rightarrow> (nat \<times> real list) list" where
  \<comment> \<open>the samples every thread has seen after a schedule has run\<close>
  "sched_samples f sched ps =
     fold (\<lambda>(t, b) ps. samples_store t (samples_local t ps @ map f (bbox_cells b)) ps) sched ps"

definition thread_ranges :: "(nat \<times> real list) list \<Rightarrow> (nat \<times> FloatRange) list" where
  \<comment> \<open>the ranges of the per-thread sample lists\<close>
  "thread_ranges ps = map (\<lambda>(k, vs). (k, range_of vs)) ps"

definition flat_index :: "int \<Rightarrow> int \<Rightarrow> Coord \<Rightarrow> int" where
  \<comment> \<open>the flat index of a cell, without the wrap-around\<close>
  "flat_index w h c = cx c * 1 + cy c * w + cz c * (w * h)"

definition lattice_box :: "int \<Rightarrow> int \<Rightarrow> int \<Rightarrow> CoordBBox" where
  \<comment> \<open>the domain of a lattice with the given extents\<close>
  "lattice_box w h d = CoordBBox (Coord 0 0 0) (Coord (w - 1) (h - 1) (d - 1))"

definition world_box :: "FloatGrid \<Rightarrow> BBoxd" where
  \<comment> \<open>the world-space box \<open>sampleGrid\<close> computes\<close>
  "world_box grid = indexToWorld grid (getIndexSpaceBoundingBox grid)"

definition lattice_sample :: "FloatGrid \<Rightarrow> Coord \<Rightarrow> Coord \<Rightarrow> real" where
  \<comment> \<open>the sample \<open>sampleGrid\<close> takes for a cell\<close>
  "lattice_sample grid extents c = sampling_func grid (world_box grid) (asVec3d extents) c"

definition lattice_range :: "FloatGrid \<Rightarrow> int \<Rightarrow> int \<Rightarrow> int \<Rightarrow> FloatRange" where
  \<comment> \<open>the range of all samples of a lattice, reduced sequentially\<close>
  "lattice_range grid w h d =
     range_of (map (lattice_sample grid (Coord w h d)) (bbox_cells (lattice_box w h d)))"

definition published :: "oiVolume \<Rightarrow> FloatRange \<Rightarrow> oiVolume" where
  \<comment> \<open>the volume after \<open>fillTextureBuffer\<close> has assigned a range and the scale\<close>
  "published vol r =
     vol\<lparr>m_summary := (m_summary vol)
       \<lparr>min_value := getMin r, max_value := getMax r,
        x_scale := vx (bboxd_extents (world_box (m_grid vol))) * m_scaleFactor vol,
        y_scale := vy (bboxd_extents (world_box (m_grid vol))) * m_scaleFactor vol,
        z_scale := vz (bboxd_extents (world_box (m_grid vol))) * m_scaleFactor vol\<rparr>\<rparr>"

definition fixed_part :: "oiVolume \<Rightarrow> int \<times> int \<times> int \<times> int \<times> int" where
  \<comment> \<open>the summary fields the constructor computes\<close>
  "fixed_part vol =
     (voxel_count (m_summary vol), width (m_summary vol), height (m_summary vol),
      depth (m_summary vol), texture_format (m_summary vol))"

section \<open>Properties of ValueRange\<close>

lemma FLT_MIN_pos: "0 < FLT_MIN"
  by (simp add: FLT_MIN_def)

lemma FLT_MIN_le_MAX: "FLT_MIN \<le> FLT_MAX"
  by (simp add: FLT_MIN_def FLT_MAX_def)

lemma fold_addValue_min:
  "m_min (fold (\<lambda>v r. addValue r v) vs r) = fold min vs (m_min r)"
  by (induction vs arbitrary: r) (simp_all add: addValue_def min.commute)

lemma fold_addValue_max:
  "m_max (fold (\<lambda>v r. addValue r v) vs r) = fold max vs (m_max r)"
  by (induction vs arbitrary: r) (simp_all add: addValue_def max.commute)

text \<open>
  Claim C2. A default-constructed range is meant to be the empty sentinel, so that the
  first \<open>addValue x\<close> leaves \<open>min = max = x\<close> for every sample. The constructor
  initialises the maximum with \<open>std::numeric_limits<float>::min()\<close>, which is the smallest
  positive float and not the lowest one: after the first call with the sample \<open>-1\<close> the
  minimum is \<open>-1\<close> but the maximum is still that constant.
\<close>

theorem ValueRange_first_addValue_negative:
  "getMin (addValue ValueRange (- 1)) = - 1 \<and> getMax (addValue ValueRange (- 1)) = FLT_MIN \<and>
   getMax (addValue ValueRange (- 1)) \<noteq> - 1"
  by (simp add: getMin_def getMax_def addValue_def ValueRange_def FLT_MIN_def FLT_MAX_def)

lemma first_addValue:
  "getMax (addValue ValueRange v) = (if FLT_MIN \<le> v then v else FLT_MIN) \<and>
   getMin (addValue ValueRange v) = (if v \<le> FLT_MAX then v else FLT_MAX)"
  by (simp add: getMin_def getMax_def addValue_def ValueRange_def max_def min_def)


lemma merge_range_eq:
  "merge_range a b = \<lparr>m_min = min (min (m_min b) (m_min a)) (m_max a),
                       m_max = max (max (m_max b) (m_min a)) (m_max a)\<rparr>"
  by (simp add: merge_range_def getMin_def getMax_def addValue_def)


lemma range_of_min: "m_min (range_of vs) = Min (insert FLT_MAX (set vs))"
proof -
  have "m_min (range_of vs) = fold min vs FLT_MAX"
    by (simp add: range_of_def fold_addValue_min ValueRange_def)
  also have "\<dots> = Min (set (FLT_MAX # vs))" by (rule Min.set_eq_fold [symmetric])
  finally show ?thesis by simp
qed

lemma range_of_max: "m_max (range_of vs) = Max (insert FLT_MIN (set vs))"
proof -
  have "m_max (range_of vs) = fold max vs FLT_MIN"
    by (simp add: range_of_def fold_addValue_max ValueRange_def)
  also have "\<dots> = Max (set (FLT_MIN # vs))" by (rule Max.set_eq_fold [symmetric])
  finally show ?thesis by simp
qed

lemma fold_min_Min: "fold min xs (c::real) = Min (insert c (set xs))"
  using Min.set_eq_fold [of c xs] by simp

lemma fold_max_Max: "fold max xs (c::real) = Max (insert c (set xs))"
  using Max.set_eq_fold [of c xs] by simp

lemma set_min_max_list:
  "set (concat (map (\<lambda>a. [m_min a, m_max a]) rs)) = m_min ` set rs \<union> m_max ` set rs"
  by (induction rs) auto

lemma fold_merge_range_min:
  "m_min (fold merge_range rs r) = Min (insert (m_min r) (m_min ` set rs \<union> m_max ` set rs))"
proof -
  have "m_min (fold merge_range rs r) = fold min (concat (map (\<lambda>a. [m_min a, m_max a]) rs)) (m_min r)"
    by (induction rs arbitrary: r) (simp_all add: merge_range_eq min.commute)
  then show ?thesis by (simp only: fold_min_Min set_min_max_list)
qed

lemma fold_merge_range_max:
  "m_max (fold merge_range rs r) = Max (insert (m_max r) (m_min ` set rs \<union> m_max ` set rs))"
proof -
  have "m_max (fold merge_range rs r) = fold max (concat (map (\<lambda>a. [m_min a, m_max a]) rs)) (m_max r)"
    by (induction rs arbitrary: r) (simp_all add: merge_range_eq max.commute)
  then show ?thesis by (simp only: fold_max_Max set_min_max_list)
qed

lemma merge_ranges_min:
  "m_min (merge_ranges rs) = Min (insert FLT_MAX (m_min ` set rs \<union> m_max ` set rs))"
  by (simp add: merge_ranges_def fold_merge_range_min ValueRange_def)

lemma merge_ranges_max:
  "m_max (merge_ranges rs) = Max (insert FLT_MIN (m_min ` set rs \<union> m_max ` set rs))"
  by (simp add: merge_ranges_def fold_merge_range_max ValueRange_def)

lemma range_of_valid: "vs \<noteq> [] \<Longrightarrow> m_min (range_of vs) \<le> m_max (range_of vs)"
proof -
  assume "vs \<noteq> []"
  then obtain v where v: "v \<in> set vs" by (cases vs) auto
  have "m_min (range_of vs) \<le> v" using v by (simp add: range_of_min)
  moreover have "v \<le> m_max (range_of vs)" using v by (simp add: range_of_max)
  ultimately show ?thesis by simp
qed

lemma merge_ranges_range_of_min:
  assumes "\<forall>vs \<in> set parts. vs \<noteq> []"
  shows "m_min (merge_ranges (map range_of parts)) = m_min (range_of (concat parts))"
proof -
  let ?S = "insert FLT_MAX (m_min ` set (map range_of parts) \<union> m_max ` set (map range_of parts))"
  let ?T = "insert FLT_MAX (set (concat parts))"
  have "Min ?S = Min ?T"
  proof (rule Min_eqI)
    show "finite ?S" by simp
  next
    fix y assume "y \<in> ?S"
    then consider "y = FLT_MAX" | vs where "vs \<in> set parts" "y = m_min (range_of vs)"
      | vs where "vs \<in> set parts" "y = m_max (range_of vs)" by auto
    then show "Min ?T \<le> y"
    proof cases
      case 1 then show ?thesis by simp
    next
      case 2
      have "Min ?T \<le> Min (insert FLT_MAX (set vs))"
        by (rule Min_antimono) (use 2 in auto)
      then show ?thesis using 2 by (simp add: range_of_min)
    next
      case 3
      have "Min ?T \<le> Min (insert FLT_MAX (set vs))"
        by (rule Min_antimono) (use 3 in auto)
      also have "\<dots> \<le> m_max (range_of vs)"
        using range_of_valid [of vs] assms 3 by (simp add: range_of_min)
      finally show ?thesis using 3 by simp
    qed
  next
    have "Min ?T \<in> ?T" by (rule Min_in) simp_all
    then consider "Min ?T = FLT_MAX" | vs where "vs \<in> set parts" "Min ?T \<in> set vs" by auto
    then show "Min ?T \<in> ?S"
    proof cases
      case 1 then show ?thesis by simp
    next
      case 2
      have "Min (insert FLT_MAX (set vs)) \<le> Min ?T"
        by (rule Min_le) (use 2 in simp_all)
      then have a: "m_min (range_of vs) \<le> Min ?T" by (simp only: range_of_min)
      have b: "Min ?T \<le> m_min (range_of vs)"
        unfolding range_of_min by (rule Min_antimono) (use 2 in auto)
      have "Min ?T = m_min (range_of vs)" by (rule order_antisym [OF b a])
      then show ?thesis using 2 by auto
    qed
  qed
  then show ?thesis by (simp add: merge_ranges_min range_of_min)
qed

lemma merge_ranges_range_of_max:
  assumes "\<forall>vs \<in> set parts. vs \<noteq> []"
  shows "m_max (merge_ranges (map range_of parts)) = m_max (range_of (concat parts))"
proof -
  let ?S = "insert FLT_MIN (m_min ` set (map range_of parts) \<union> m_max ` set (map range_of parts))"
  let ?T = "insert FLT_MIN (set (concat parts))"
  have "Max ?S = Max ?T"
  proof (rule Max_eqI)
    show "finite ?S" by simp
  next
    fix y assume "y \<in> ?S"
    then consider "y = FLT_MIN" | vs where "vs \<in> set parts" "y = m_min (range_of vs)"
      | vs where "vs \<in> set parts" "y = m_max (range_of vs)" by auto
    then show "y \<le> Max ?T"
    proof cases
      case 1 then show ?thesis by simp
    next
      case 2
      have "m_min (range_of vs) \<le> m_max (range_of vs)"
        using range_of_valid [of vs] assms 2 by simp
      also have "\<dots> = Max (insert FLT_MIN (set vs))" by (simp only: range_of_max)
      also have "\<dots> \<le> Max ?T"
        by (rule Max_mono) (use 2 in auto)
      finally show ?thesis using 2 by simp
    next
      case 3
      have "Max (insert FLT_MIN (set vs)) \<le> Max ?T"
        by (rule Max_mono) (use 3 in auto)
      then show ?thesis using 3 by (simp only: range_of_max)
    qed
  next
    have "Max ?T \<in> ?T" by (rule Max_in) simp_all
    then consider "Max ?T = FLT_MIN" | vs where "vs \<in> set parts" "Max ?T \<in> set vs" by auto
    then show "Max ?T \<in> ?S"
    proof cases
      case 1 then show ?thesis by simp
    next
      case 2
      have "Max ?T \<le> Max (insert FLT_MIN (set vs))"
        by (rule Max_ge) (use 2 in simp_all)
      then have a: "Max ?T \<le> m_max (range_of vs)" by (simp only: range_of_max)
      have b: "m_max (range_of vs) \<le> Max ?T"
        unfolding range_of_max by (rule Max_mono) (use 2 in auto)
      have "Max ?T = m_max (range_of vs)" by (rule order_antisym [OF a b])
      then show ?thesis using 2 by auto
    qed
  qed
  then show ?thesis by (simp add: merge_ranges_max range_of_max)
qed

lemma merge_ranges_range_of:
  assumes "\<forall>vs \<in> set parts. vs \<noteq> []"
  shows "merge_ranges (map range_of parts) = range_of (concat parts)"
  by (rule FloatRange.equality)
     (simp_all add: merge_ranges_range_of_min [OF assms] merge_ranges_range_of_max [OF assms])

lemma range_of_set_cong:
  assumes "set vs = set ws"
  shows "range_of vs = range_of ws"
  by (rule FloatRange.equality) (simp_all add: range_of_min range_of_max assms)



section \<open>The loops of the first pass\<close>

lemma wrap32_id: "- 2147483648 \<le> i \<Longrightarrow> i < 2147483648 \<Longrightarrow> wrap32 i = i"
  by (simp add: wrap32_def)

lemma loop_x_fold:
  assumes "- 2147483648 \<le> x" "cx (bmax bbox) < 2147483647"
  shows "loop_x f stride bbox z y x st
           = Some (fold (\<lambda>x. cell_body f stride x y z) [x..cx (bmax bbox)] st)"
  using assms
proof (induction "nat (cx (bmax bbox) + 1 - x)" arbitrary: x st)
  case 0
  then have "\<not> x \<le> cx (bmax bbox)" by simp
  then show ?case by (subst loop_x.simps) simp
next
  case (Suc n)
  then have le: "x \<le> cx (bmax bbox)" by simp
  have w: "wrap32 (x + 1) = x + 1" using Suc.prems le by (simp add: wrap32_id)
  have "n = nat (cx (bmax bbox) + 1 - (x + 1))" using Suc.hyps(2) by simp
  from Suc.hyps(1) [OF this] Suc.prems
  have IH: "loop_x f stride bbox z y (x + 1) (cell_body f stride x y z st)
     = Some (fold (\<lambda>x. cell_body f stride x y z) [x + 1..cx (bmax bbox)] (cell_body f stride x y z st))"
    by simp
  show ?case
    by (subst loop_x.simps) (simp add: le w IH upto_rec1 [of x])
qed

lemma loop_y_fold:
  assumes "- 2147483648 \<le> y" "cy (bmax bbox) < 2147483647"
    "- 2147483648 \<le> cx (bmin bbox)" "cx (bmax bbox) < 2147483647"
  shows "loop_y f stride bbox z y st
           = Some (fold (\<lambda>y. fold (\<lambda>x. cell_body f stride x y z) [cx (bmin bbox)..cx (bmax bbox)])
                    [y..cy (bmax bbox)] st)"
  using assms(1,2)
proof (induction "nat (cy (bmax bbox) + 1 - y)" arbitrary: y st)
  case 0
  then have "\<not> y \<le> cy (bmax bbox)" by simp
  then show ?case by (subst loop_y.simps) simp
next
  case (Suc n)
  then have le: "y \<le> cy (bmax bbox)" by simp
  have w: "wrap32 (y + 1) = y + 1" using Suc.prems le by (simp add: wrap32_id)
  have "n = nat (cy (bmax bbox) + 1 - (y + 1))" using Suc.hyps(2) by simp
  from Suc.hyps(1) [OF this] Suc.prems
  have IH: "\<And>st. loop_y f stride bbox z (y + 1) st
     = Some (fold (\<lambda>y. fold (\<lambda>x. cell_body f stride x y z) [cx (bmin bbox)..cx (bmax bbox)])
                    [y + 1..cy (bmax bbox)] st)"
    by simp
  show ?case
    by (subst loop_y.simps) (simp add: le w IH upto_rec1 [of y] loop_x_fold [OF assms(3,4)])
qed

lemma loop_z_fold:
  assumes "- 2147483648 \<le> z" "cz (bmax bbox) < 2147483647"
    "- 2147483648 \<le> cy (bmin bbox)" "cy (bmax bbox) < 2147483647"
    "- 2147483648 \<le> cx (bmin bbox)" "cx (bmax bbox) < 2147483647"
  shows "loop_z f stride bbox z st
           = Some (fold (\<lambda>z. fold (\<lambda>y. fold (\<lambda>x. cell_body f stride x y z)
                      [cx (bmin bbox)..cx (bmax bbox)]) [cy (bmin bbox)..cy (bmax bbox)])
                    [z..cz (bmax bbox)] st)"
  using assms(1,2)
proof (induction "nat (cz (bmax bbox) + 1 - z)" arbitrary: z st)
  case 0
  then have "\<not> z \<le> cz (bmax bbox)" by simp
  then show ?case by (subst loop_z.simps) simp
next
  case (Suc n)
  then have le: "z \<le> cz (bmax bbox)" by simp
  have w: "wrap32 (z + 1) = z + 1" using Suc.prems le by (simp add: wrap32_id)
  have "n = nat (cz (bmax bbox) + 1 - (z + 1))" using Suc.hyps(2) by simp
  from Suc.hyps(1) [OF this] Suc.prems
  have IH: "\<And>st. loop_z f stride bbox (z + 1) st
     = Some (fold (\<lambda>z. fold (\<lambda>y. fold (\<lambda>x. cell_body f stride x y z)
                      [cx (bmin bbox)..cx (bmax bbox)]) [cy (bmin bbox)..cy (bmax bbox)])
                    [z + 1..cz (bmax bbox)] st)"
    by simp
  show ?case
    by (subst loop_z.simps) (simp add: le w IH upto_rec1 [of z] loop_y_fold [OF assms(3,4,5,6)])
qed

lemma apply_stores_append: "apply_stores (ws @ vs) buf = apply_stores vs (apply_stores ws buf)"
  by (simp add: apply_stores_def)

lemma visit_cells_Nil: "visit_cells f stride [] st = st"
  by (simp add: visit_cells_def apply_stores_def)

lemma visit_cells_Cons:
  "visit_cells f stride (c # cs) st
     = visit_cells f stride cs (cell_body f stride (cx c) (cy c) (cz c) st)"
  by (simp add: visit_cells_def cell_body_def cell_stores_def linear_index_def apply_stores_def Let_def)

lemma fold_cell_body:
  "fold (\<lambda>c. cell_body f stride (cx c) (cy c) (cz c)) cs st = visit_cells f stride cs st"
  by (induction cs arbitrary: st) (simp_all add: visit_cells_Nil visit_cells_Cons)

lemma fold_concat_map:
  "fold g (concat (map h xs)) = fold (\<lambda>x. fold g (h x)) xs"
  by (induction xs) (simp_all add: fun_eq_iff)

lemma nested_fold_cells:
  "fold (\<lambda>z. fold (\<lambda>y. fold (\<lambda>x. cell_body f stride x y z)
       [cx (bmin b)..cx (bmax b)]) [cy (bmin b)..cy (bmax b)]) [cz (bmin b)..cz (bmax b)] st
     = visit_cells f stride (bbox_cells b) st"
  by (simp add: fold_cell_body [symmetric] bbox_cells_def fold_concat_map fold_map comp_def)

lemma sample_bbox_eq:
  assumes "in_int_range b"
  shows "sample_bbox f stride t b st =
     Some \<lparr>out_samples = apply_stores (concat (map (cell_stores f stride) (bbox_cells b))) (out_samples st),
           ranges = ranges_store t
              (fold (\<lambda>v r. addValue r v) (map f (bbox_cells b)) (ranges_local t (ranges st))) (ranges st),
           stores = stores st @ concat (map (cell_stores f stride) (bbox_cells b)),
           calls = calls st @ bbox_cells b\<rparr>"
proof -
  from assms have
    "- 2147483648 \<le> cz (bmin b)" "cz (bmax b) < 2147483647"
    "- 2147483648 \<le> cy (bmin b)" "cy (bmax b) < 2147483647"
    "- 2147483648 \<le> cx (bmin b)" "cx (bmax b) < 2147483647"
    by (simp_all add: in_int_range_def)
  from loop_z_fold [OF this] show ?thesis
    by (simp add: sample_bbox_def nested_fold_cells visit_cells_def)
qed

lemma parallel_for_sample_bbox:
  assumes "list_all (\<lambda>(t, b). in_int_range b) sched"
  shows "parallel_for sched (sample_bbox f stride) st =
     Some \<lparr>out_samples = apply_stores (concat (map (cell_stores f stride) (sched_cells sched))) (out_samples st),
           ranges = sched_ranges f sched (ranges st),
           stores = stores st @ concat (map (cell_stores f stride) (sched_cells sched)),
           calls = calls st @ sched_cells sched\<rparr>"
  using assms
proof (induction sched arbitrary: st)
  case Nil
  show ?case by (simp add: sched_cells_def sched_ranges_def apply_stores_def)
next
  case (Cons p sched)
  obtain t b where p: "p = (t, b)" by (cases p)
  from Cons.prems p have b: "in_int_range b" and rest: "list_all (\<lambda>(t, b). in_int_range b) sched"
    by simp_all
  show ?case
    by (simp add: p sample_bbox_eq [OF b] Cons.IH [OF rest] sched_cells_def sched_ranges_def
        apply_stores_append)
qed

lemma in_bbox_cells:
  "Coord x y z \<in> set (bbox_cells b) \<longleftrightarrow>
     cx (bmin b) \<le> x \<and> x \<le> cx (bmax b) \<and> cy (bmin b) \<le> y \<and> y \<le> cy (bmax b) \<and>
     cz (bmin b) \<le> z \<and> z \<le> cz (bmax b)"
proof
  assume "Coord x y z \<in> set (bbox_cells b)"
  then show "cx (bmin b) \<le> x \<and> x \<le> cx (bmax b) \<and> cy (bmin b) \<le> y \<and> y \<le> cy (bmax b) \<and>
     cz (bmin b) \<le> z \<and> z \<le> cz (bmax b)"
    unfolding bbox_cells_def by auto
next
  assume a: "cx (bmin b) \<le> x \<and> x \<le> cx (bmax b) \<and> cy (bmin b) \<le> y \<and> y \<le> cy (bmax b) \<and>
     cz (bmin b) \<le> z \<and> z \<le> cz (bmax b)"
  have "\<exists>z' \<in> {cz (bmin b)..cz (bmax b)}. \<exists>y' \<in> {cy (bmin b)..cy (bmax b)}.
         Coord x y z \<in> (\<lambda>x'. Coord x' y' z') ` {cx (bmin b)..cx (bmax b)}"
    by (intro bexI [of _ z] bexI [of _ y] image_eqI [of _ _ x]) (use a in simp_all)
  then show "Coord x y z \<in> set (bbox_cells b)"
    unfolding bbox_cells_def by simp
qed

lemma set_bbox_cells:
  "set (bbox_cells b) = {c. cx (bmin b) \<le> cx c \<and> cx c \<le> cx (bmax b) \<and>
      cy (bmin b) \<le> cy c \<and> cy c \<le> cy (bmax b) \<and> cz (bmin b) \<le> cz c \<and> cz c \<le> cz (bmax b)}"
proof (rule set_eqI)
  fix c
  obtain x y z where c: "c = Coord x y z" by (cases c)
  show "c \<in> set (bbox_cells b) \<longleftrightarrow> c \<in> {c. cx (bmin b) \<le> cx c \<and> cx c \<le> cx (bmax b) \<and>
      cy (bmin b) \<le> cy c \<and> cy c \<le> cy (bmax b) \<and> cz (bmin b) \<le> cz c \<and> cz c \<le> cz (bmax b)}"
    by (simp add: c in_bbox_cells)
qed

lemma bbox_corners_in_cells:
  "\<not> bbox_empty b \<Longrightarrow> bmin b \<in> set (bbox_cells b) \<and> bmax b \<in> set (bbox_cells b)"
  by (simp add: set_bbox_cells bbox_empty_def)

lemma bbox_cells_nonempty: "\<not> bbox_empty b \<Longrightarrow> bbox_cells b \<noteq> []"
  using bbox_corners_in_cells [of b] by auto

section \<open>Bounding-box resolution\<close>

lemma bbox_empty_default: "bbox_empty CoordBBox_default"
  by (simp add: bbox_empty_def CoordBBox_default_def INT_MAX_def INT_MIN_def)

text \<open>
  Claim C4. The resolver returns the empty box whenever a metadata lookup fails or the
  stored minimum has \<open>INT_MAX\<close> on some axis or the stored maximum has \<open>INT_MIN\<close> on some
  axis; otherwise it returns the box of the two stored corners. Every exception of the
  \<open>try\<close> block is turned into the empty box, so none leaves the function.
\<close>

theorem getIndexSpaceBoundingBox_cases:
  "((\<exists>e. metaValue g ''file_bbox_min'' = Inl e) \<or> (\<exists>e. metaValue g ''file_bbox_max'' = Inl e) \<or>
    (\<exists>mn. metaValue g ''file_bbox_min'' = Inr mn \<and>
       (cx mn = INT_MAX \<or> cy mn = INT_MAX \<or> cz mn = INT_MAX)) \<or>
    (\<exists>mx. metaValue g ''file_bbox_max'' = Inr mx \<and>
       (cx mx = INT_MIN \<or> cy mx = INT_MIN \<or> cz mx = INT_MIN))
    \<longrightarrow> getIndexSpaceBoundingBox g = CoordBBox_default) \<and>
   (\<forall>mn mx. metaValue g ''file_bbox_min'' = Inr mn \<and> metaValue g ''file_bbox_max'' = Inr mx \<and>
      cx mn \<noteq> INT_MAX \<and> cy mn \<noteq> INT_MAX \<and> cz mn \<noteq> INT_MAX \<and>
      cx mx \<noteq> INT_MIN \<and> cy mx \<noteq> INT_MIN \<and> cz mx \<noteq> INT_MIN
      \<longrightarrow> getIndexSpaceBoundingBox g = CoordBBox mn mx) \<and>
   (\<forall>e. bbox_try_block g = Inl e \<longrightarrow> getIndexSpaceBoundingBox g = CoordBBox_default) \<and>
   bbox_empty CoordBBox_default"
proof (intro conjI allI impI)
  assume "(\<exists>e. metaValue g ''file_bbox_min'' = Inl e) \<or> (\<exists>e. metaValue g ''file_bbox_max'' = Inl e) \<or>
    (\<exists>mn. metaValue g ''file_bbox_min'' = Inr mn \<and>
       (cx mn = INT_MAX \<or> cy mn = INT_MAX \<or> cz mn = INT_MAX)) \<or>
    (\<exists>mx. metaValue g ''file_bbox_max'' = Inr mx \<and>
       (cx mx = INT_MIN \<or> cy mx = INT_MIN \<or> cz mx = INT_MIN))"
  then show "getIndexSpaceBoundingBox g = CoordBBox_default"
    by (auto simp: getIndexSpaceBoundingBox_def bbox_try_block_def split: sum.splits)
next
  fix mn mx
  assume "metaValue g ''file_bbox_min'' = Inr mn \<and> metaValue g ''file_bbox_max'' = Inr mx \<and>
      cx mn \<noteq> INT_MAX \<and> cy mn \<noteq> INT_MAX \<and> cz mn \<noteq> INT_MAX \<and>
      cx mx \<noteq> INT_MIN \<and> cy mx \<noteq> INT_MIN \<and> cz mx \<noteq> INT_MIN"
  then show "getIndexSpaceBoundingBox g = CoordBBox mn mx"
    by (simp add: getIndexSpaceBoundingBox_def bbox_try_block_def)
next
  fix e
  assume "bbox_try_block g = Inl e"
  then show "getIndexSpaceBoundingBox g = CoordBBox_default"
    by (simp add: getIndexSpaceBoundingBox_def)
next
  show "bbox_empty CoordBBox_default" by (rule bbox_empty_default)
qed

text \<open>
  Claim C4 at two grids: one with the stored corners \<open>(0,0,0)\<close> and \<open>(1,1,1)\<close>, one whose
  lookups throw.
\<close>

theorem getIndexSpaceBoundingBox_cases_witness:
  "getIndexSpaceBoundingBox (example_grid (constant_field 5)) = CoordBBox (Coord 0 0 0) (Coord 1 1 1) \<and>
   getIndexSpaceBoundingBox example_grid_no_metadata = CoordBBox_default"
  using getIndexSpaceBoundingBox_cases [of "example_grid (constant_field 5)"]
    getIndexSpaceBoundingBox_cases [of example_grid_no_metadata]
  by (simp add: example_grid_def example_grid_no_metadata_def example_metadata_def
      INT_MAX_def INT_MIN_def)

lemma example_grid_bbox:
  "getIndexSpaceBoundingBox (example_grid fld) = CoordBBox (Coord 0 0 0) (Coord 1 1 1)"
  by (simp add: getIndexSpaceBoundingBox_def bbox_try_block_def example_grid_def
      example_metadata_def INT_MAX_def INT_MIN_def)

lemma example_grid_sel:
  "indexToWorld (example_grid fld) = identity_transform" "wsSample (example_grid fld) = fld"
  by (simp_all add: example_grid_def)

lemma example_grid_no_metadata_bbox:
  "getIndexSpaceBoundingBox example_grid_no_metadata = CoordBBox_default"
  by (simp add: getIndexSpaceBoundingBox_def bbox_try_block_def example_grid_no_metadata_def)

section \<open>The sampling position\<close>

lemma sampling_func_eq:
  "sampling_func grid w (asVec3d ext) =
     (\<lambda>cell. wsSample grid (spec_cell_center (wmin w) (bboxd_extents w) ext cell))"
  by (rule ext)
     (simp add: sampling_func_def spec_cell_center_def vec_add_def vec_mul_def vec_div_def
        vec_add_scalar_def asVec3d_def)

text \<open>
  Claim C5. For a grid whose resolved box is not empty, the function that \<open>sampleGrid\<close>
  hands to the writer maps a cell index to the grid's world-space sample at the cell
  centre \<open>world_min + (cell_index + 0.5) / lattice_extents * world_extents\<close>, where the
  world box is the image of the resolved index box under the grid's transform. It
  depends on the grid, the extents and the cell index only.
\<close>

theorem sampleGrid_samples_cell_centers:
  assumes "\<not> bbox_empty (getIndexSpaceBoundingBox grid)"
  shows "sampleGrid sched grid extents vr buf =
           Option.bind
             (sampleVolume sched extents
                (\<lambda>cell. wsSample grid
                   (spec_cell_center
                      (wmin (indexToWorld grid (getIndexSpaceBoundingBox grid)))
                      (bboxd_extents (indexToWorld grid (getIndexSpaceBoundingBox grid)))
                      extents cell))
                vr buf)
             (\<lambda>r. Some \<lparr>g_returned = None, g_value_range = value_range r,
                         g_scale = bboxd_extents (indexToWorld grid (getIndexSpaceBoundingBox grid)),
                         g_samples = samples r, g_stored = stored r, g_called = called r\<rparr>) \<and>
         sampling_func grid (indexToWorld grid (getIndexSpaceBoundingBox grid)) (asVec3d extents) cell =
           wsSample grid
             (spec_cell_center
                (wmin (indexToWorld grid (getIndexSpaceBoundingBox grid)))
                (bboxd_extents (indexToWorld grid (getIndexSpaceBoundingBox grid)))
                extents cell)"
  using assms by (simp add: sampleGrid_def Let_def sampling_func_eq)

text \<open>
  Claim C5 on the unit-box grid and a 2 x 2 x 2 lattice: the cell \<open>(1,0,0)\<close> is sampled
  at \<open>(0.75, 0.25, 0.25)\<close>.
\<close>

theorem sampleGrid_samples_cell_centers_witness:
  "\<not> bbox_empty (getIndexSpaceBoundingBox (example_grid ramp_field)) \<and>
   sampling_func (example_grid ramp_field)
       (indexToWorld (example_grid ramp_field) (getIndexSpaceBoundingBox (example_grid ramp_field)))
       (asVec3d (Coord 2 2 2)) (Coord 1 0 0)
     = ramp_field (Vec3d (3 / 4) (1 / 4) (1 / 4))"
proof -
  have ne: "\<not> bbox_empty (getIndexSpaceBoundingBox (example_grid ramp_field))"
    by (simp add: example_grid_bbox bbox_empty_def)
  from sampleGrid_samples_cell_centers [OF ne, of "[]" "Coord 2 2 2" ValueRange example_buffer "Coord 1 0 0"]
  have "sampling_func (example_grid ramp_field)
       (indexToWorld (example_grid ramp_field) (getIndexSpaceBoundingBox (example_grid ramp_field)))
       (asVec3d (Coord 2 2 2)) (Coord 1 0 0)
     = wsSample (example_grid ramp_field)
             (spec_cell_center
                (wmin (indexToWorld (example_grid ramp_field) (getIndexSpaceBoundingBox (example_grid ramp_field))))
                (bboxd_extents (indexToWorld (example_grid ramp_field) (getIndexSpaceBoundingBox (example_grid ramp_field))))
                (Coord 2 2 2) (Coord 1 0 0))"
    by (rule conjunct2)
  also have "\<dots> = ramp_field (Vec3d (3 / 4) (1 / 4) (1 / 4))"
    by (simp add: example_grid_bbox example_grid_sel spec_cell_center_def identity_transform_def
        asVec3d_def bboxd_extents_def vec_sub_def)
  finally show ?thesis using ne by simp
qed

section \<open>Schedules and the thread-local ranges\<close>

lemma set_sched_cells:
  "set (sched_cells sched) = (\<Union>(t, b) \<in> set sched. set (bbox_cells b))"
  by (auto simp: sched_cells_def)

lemma valid_schedule_mset:
  "valid_schedule dm sched \<Longrightarrow> mset (sched_cells sched) = mset (bbox_cells dm)"
  by (simp add: valid_schedule_def sched_cells_def)

lemma valid_schedule_set:
  "valid_schedule dm sched \<Longrightarrow> set (sched_cells sched) = set (bbox_cells dm)"
  by (rule mset_eq_setD [OF valid_schedule_mset])

lemma valid_schedule_in_range:
  assumes "valid_schedule dm sched" "in_int_range dm"
  shows "list_all (\<lambda>(t, b). in_int_range b) sched"
proof -
  have "in_int_range b" if tb: "(t, b) \<in> set sched" for t b
  proof -
    from assms(1) tb have "\<not> bbox_empty b"
      by (auto simp: valid_schedule_def list_all_iff)
    then have "bmin b \<in> set (bbox_cells b)" "bmax b \<in> set (bbox_cells b)"
      using bbox_corners_in_cells by simp_all
    then have "bmin b \<in> set (sched_cells sched)" "bmax b \<in> set (sched_cells sched)"
      using tb by (auto simp: set_sched_cells)
    then have "bmin b \<in> set (bbox_cells dm)" "bmax b \<in> set (bbox_cells dm)"
      using valid_schedule_set [OF assms(1)] by simp_all
    then show ?thesis
      using assms(2) by (simp add: set_bbox_cells in_int_range_def)
  qed
  then show ?thesis by (auto simp: list_all_iff)
qed

lemma lattice_domain_eq:
  assumes "1 \<le> cx ext" "cx ext \<le> INT_MAX" "1 \<le> cy ext" "cy ext \<le> INT_MAX"
    "1 \<le> cz ext" "cz ext \<le> INT_MAX"
  shows "coord_sub ext (Coord 1 1 1) = Coord (cx ext - 1) (cy ext - 1) (cz ext - 1)"
  using assms by (simp add: coord_sub_def wrap32_id INT_MAX_def)

lemma sampleVolume_eq:
  assumes ext: "1 \<le> cx ext" "cx ext \<le> INT_MAX" "1 \<le> cy ext" "cy ext \<le> INT_MAX"
    "1 \<le> cz ext" "cz ext \<le> INT_MAX"
    and vs: "valid_schedule (CoordBBox (Coord 0 0 0) (coord_sub ext (Coord 1 1 1))) sched"
  shows "sampleVolume sched ext f vr buf =
     Some \<lparr>returned = None,
           value_range = merge_ranges (map snd (sched_ranges f sched [])),
           samples = normalize_samples (merge_ranges (map snd (sched_ranges f sched [])))
              (nat (wrap32 ((bbox_volume (CoordBBox (Coord 0 0 0) (coord_sub ext (Coord 1 1 1))) * 4)
                     mod 2 ^ 64) mod 2 ^ 64))
              (apply_stores (concat (map (cell_stores f (Coord 1 (cx ext) (wrap32 (cx ext * cy ext))))
                 (sched_cells sched))) buf),
           stored = concat (map (cell_stores f (Coord 1 (cx ext) (wrap32 (cx ext * cy ext))))
                 (sched_cells sched)),
           called = sched_cells sched\<rparr>"
proof -
  let ?dom = "CoordBBox (Coord 0 0 0) (coord_sub ext (Coord 1 1 1))"
  have ne: "\<not> bbox_empty ?dom"
    using ext by (simp add: lattice_domain_eq bbox_empty_def)
  have "in_int_range ?dom"
    using ext by (simp add: lattice_domain_eq in_int_range_def INT_MAX_def)
  then have r: "list_all (\<lambda>(t, b). in_int_range b) sched"
    by (rule valid_schedule_in_range [OF vs])
  show ?thesis
    unfolding sampleVolume_def Let_def
    by (simp only: ne if_False parallel_for_sample_bbox [OF r]) simp
qed

lemma range_of_Nil: "range_of [] = ValueRange"
  by (simp add: range_of_def)

lemma range_of_append: "fold (\<lambda>v r. addValue r v) vs (range_of ws) = range_of (ws @ vs)"
  by (simp add: range_of_def)

lemma map_of_thread_ranges: "map_of (thread_ranges ps) t = map_option range_of (map_of ps t)"
  by (induction ps) (auto simp: thread_ranges_def)

lemma ranges_local_thread_ranges:
  "ranges_local t (thread_ranges ps) = range_of (samples_local t ps)"
  by (simp add: ranges_local_def samples_local_def map_of_thread_ranges range_of_Nil
      split: option.splits)

lemma fst_thread_ranges: "fst ` set (thread_ranges ps) = fst ` set ps"
  by (force simp: thread_ranges_def)

lemma ranges_store_thread_ranges:
  "ranges_store t (range_of vs) (thread_ranges ps) = thread_ranges (samples_store t vs ps)"
proof (cases "t \<in> fst ` set ps")
  case True
  then show ?thesis
    by (simp add: ranges_store_def samples_store_def fst_thread_ranges)
       (auto simp: thread_ranges_def)
next
  case False
  then show ?thesis
    by (simp add: ranges_store_def samples_store_def fst_thread_ranges)
       (simp add: thread_ranges_def)
qed

lemma sched_ranges_thread_ranges:
  "sched_ranges f sched (thread_ranges ps) = thread_ranges (sched_samples f sched ps)"
proof (induction sched arbitrary: ps)
  case Nil
  show ?case by (simp add: sched_ranges_def sched_samples_def)
next
  case (Cons p sched)
  obtain t b where p: "p = (t, b)" by (cases p)
  have step: "ranges_store t
          (fold (\<lambda>v r. addValue r v) (map f (bbox_cells b)) (ranges_local t (thread_ranges ps)))
          (thread_ranges ps)
        = thread_ranges (samples_store t (samples_local t ps @ map f (bbox_cells b)) ps)"
    by (simp add: ranges_local_thread_ranges range_of_append ranges_store_thread_ranges)
  have "sched_ranges f (p # sched) (thread_ranges ps)
      = sched_ranges f sched (thread_ranges (samples_store t (samples_local t ps @ map f (bbox_cells b)) ps))"
    by (simp add: sched_ranges_def p step)
  also have "\<dots> = thread_ranges (sched_samples f sched
        (samples_store t (samples_local t ps @ map f (bbox_cells b)) ps))"
    by (rule Cons.IH)
  also have "\<dots> = thread_ranges (sched_samples f (p # sched) ps)"
    by (simp add: sched_samples_def p)
  finally show ?case .
qed

lemma samples_store_keys: "map fst (samples_store t vs ps) = (if t \<in> fst ` set ps then map fst ps else map fst ps @ [t])"
  by (auto simp: samples_store_def)

lemma samples_store_distinct:
  "distinct (map fst ps) \<Longrightarrow> distinct (map fst (samples_store t vs ps))"
  by (simp add: samples_store_keys)

lemma samples_local_present:
  "distinct (map fst ps) \<Longrightarrow> (t, v) \<in> set ps \<Longrightarrow> samples_local t ps = v"
  by (simp add: samples_local_def)

lemma set_store_present:
  fixes ps :: "(nat \<times> real list) list"
  assumes "t \<in> fst ` set ps"
  shows "(\<lambda>x. case x of (k, v) \<Rightarrow> if k = t then (k, X) else (k, v)) ` set ps
       = insert (t, X) {(k, v). (k, v) \<in> set ps \<and> k \<noteq> t}"
proof (rule set_eqI)
  fix p :: "nat \<times> real list"
  let ?g = "\<lambda>x. case x of (k, v) \<Rightarrow> if k = t then (k, X) else (k, v)"
  obtain k v where p: "p = (k, v)" by (cases p)
  from assms obtain w where w: "(t, w) \<in> set ps" by auto
  show "p \<in> ?g ` set ps \<longleftrightarrow> p \<in> insert (t, X) {(k, v). (k, v) \<in> set ps \<and> k \<noteq> t}"
  proof
    assume "p \<in> ?g ` set ps"
    then obtain q where q: "q \<in> set ps" "p = ?g q" by blast
    obtain k' v' where q': "q = (k', v')" by (cases q)
    show "p \<in> insert (t, X) {(k, v). (k, v) \<in> set ps \<and> k \<noteq> t}"
      using q q' by (cases "k' = t") simp_all
  next
    assume "p \<in> insert (t, X) {(k, v). (k, v) \<in> set ps \<and> k \<noteq> t}"
    then consider "(k, v) \<in> set ps" "k \<noteq> t" | "p = (t, X)" using p by auto
    then show "p \<in> ?g ` set ps"
    proof cases
      case 1
      then have "?g (k, v) = p" using p by simp
      then show ?thesis using 1(1) by (rule image_eqI [OF sym])
    next
      case 2
      have "?g (t, w) = p" using 2 by simp
      then show ?thesis using w by (rule image_eqI [OF sym])
    qed
  qed
qed

lemma set_samples_store:
  "set (samples_store t X ps) = {(k, v) \<in> set ps. k \<noteq> t} \<union> {(t, X)}"
proof (cases "t \<in> fst ` set ps")
  case True
  then show ?thesis
    by (simp add: samples_store_def set_store_present)
next
  case False
  then have "{(k, v) \<in> set ps. k \<noteq> t} = set ps" by force
  then show ?thesis using False by (simp add: samples_store_def)
qed

lemma samples_store_union:
  assumes "distinct (map fst ps)"
  shows "(\<Union>(k, v) \<in> set (samples_store t (samples_local t ps @ new) ps). set v)
       = (\<Union>(k, v) \<in> set ps. set v) \<union> set new"
proof -
  have old: "(\<Union>(k, v) \<in> set ps. set v)
      = (\<Union>(k, v) \<in> {(k, v) \<in> set ps. k \<noteq> t}. set v) \<union> set (samples_local t ps)"
  proof (cases "t \<in> fst ` set ps")
    case True
    then obtain v where v: "(t, v) \<in> set ps" by auto
    then have l: "samples_local t ps = v" by (rule samples_local_present [OF assms])
    have u: "w = v" if "(t, w) \<in> set ps" for w
      using samples_local_present [OF assms that] l by simp
    show ?thesis
    proof (rule set_eqI, rule iffI)
      fix x assume "x \<in> (\<Union>(k, v) \<in> set ps. set v)"
      then obtain k w where kw: "(k, w) \<in> set ps" "x \<in> set w" by auto
      show "x \<in> (\<Union>(k, v) \<in> {(k, v) \<in> set ps. k \<noteq> t}. set v) \<union> set (samples_local t ps)"
      proof (cases "k = t")
        case True
        then have "w = v" using kw u by simp
        then show ?thesis using kw l by simp
      next
        case False
        then show ?thesis using kw by auto
      qed
    next
      fix x assume "x \<in> (\<Union>(k, v) \<in> {(k, v) \<in> set ps. k \<noteq> t}. set v) \<union> set (samples_local t ps)"
      then show "x \<in> (\<Union>(k, v) \<in> set ps. set v)"
        using v l by auto
    qed
  next
    case False
    then have "map_of ps t = None" by (simp add: map_of_eq_None_iff)
    then have "samples_local t ps = []" by (simp add: samples_local_def)
    moreover have "{(k, v) \<in> set ps. k \<noteq> t} = set ps" using False by force
    ultimately show ?thesis by simp
  qed
  have "(\<Union>(k, v) \<in> set (samples_store t (samples_local t ps @ new) ps). set v)
      = (\<Union>(k, v) \<in> {(k, v) \<in> set ps. k \<noteq> t}. set v) \<union> set (samples_local t ps) \<union> set new"
    by (simp add: set_samples_store) blast
  then show ?thesis using old by simp
qed

lemma samples_store_nonempty:
  assumes "\<forall>(k, v) \<in> set ps. v \<noteq> []" "new \<noteq> []"
  shows "\<forall>(k, v) \<in> set (samples_store t (samples_local t ps @ new) ps). v \<noteq> []"
  using assms by (auto simp: set_samples_store)

lemma sched_samples_invariant:
  assumes "list_all (\<lambda>(t, b). \<not> bbox_empty b) sched"
    and "distinct (map fst ps)" and "\<forall>(k, v) \<in> set ps. v \<noteq> []"
  shows "distinct (map fst (sched_samples f sched ps)) \<and>
         (\<forall>(k, v) \<in> set (sched_samples f sched ps). v \<noteq> []) \<and>
         (\<Union>(k, v) \<in> set (sched_samples f sched ps). set v)
            = (\<Union>(k, v) \<in> set ps. set v) \<union> f ` set (sched_cells sched)"
  using assms
proof (induction sched arbitrary: ps)
  case Nil
  then show ?case by (simp add: sched_samples_def sched_cells_def)
next
  case (Cons p sched)
  obtain t b where p: "p = (t, b)" by (cases p)
  let ?ps = "samples_store t (samples_local t ps @ map f (bbox_cells b)) ps"
  from Cons.prems(1) p have b: "\<not> bbox_empty b"
    and rest: "list_all (\<lambda>(t, b). \<not> bbox_empty b) sched" by simp_all
  have new: "map f (bbox_cells b) \<noteq> []" using bbox_cells_nonempty [OF b] by simp
  have d: "distinct (map fst ?ps)" by (rule samples_store_distinct [OF Cons.prems(2)])
  have n: "\<forall>(k, v) \<in> set ?ps. v \<noteq> []" by (rule samples_store_nonempty [OF Cons.prems(3) new])
  have u: "(\<Union>(k, v) \<in> set ?ps. set v) = (\<Union>(k, v) \<in> set ps. set v) \<union> f ` set (bbox_cells b)"
    using samples_store_union [OF Cons.prems(2), of t "map f (bbox_cells b)"] by simp
  have e: "sched_samples f (p # sched) ps = sched_samples f sched ?ps"
    by (simp add: sched_samples_def p)
  have c: "sched_cells (p # sched) = bbox_cells b @ sched_cells sched"
    by (simp add: sched_cells_def p)
  from Cons.IH [OF rest d n] show ?case
    unfolding e c u by (simp add: image_Un Un_assoc)
qed

lemma sched_ranges_merge:
  assumes "list_all (\<lambda>(t, b). \<not> bbox_empty b) sched"
  shows "merge_ranges (map snd (sched_ranges f sched [])) = range_of (map f (sched_cells sched))"
proof -
  let ?ps = "sched_samples f sched []"
  from sched_samples_invariant [OF assms, of "[]" f]
  have n: "\<forall>(k, v) \<in> set ?ps. v \<noteq> []"
    and u: "(\<Union>(k, v) \<in> set ?ps. set v) = f ` set (sched_cells sched)"
    by simp_all
  have "sched_ranges f sched [] = thread_ranges ?ps"
    using sched_ranges_thread_ranges [of f sched "[]"] by (simp add: thread_ranges_def)
  then have "map snd (sched_ranges f sched []) = map range_of (map snd ?ps)"
    by (simp add: thread_ranges_def case_prod_unfold comp_def)
  moreover have "\<forall>vs \<in> set (map snd ?ps). vs \<noteq> []" using n by auto
  ultimately have "merge_ranges (map snd (sched_ranges f sched []))
      = range_of (concat (map snd ?ps))"
    by (simp only: merge_ranges_range_of)
  also have "\<dots> = range_of (map f (sched_cells sched))"
  proof (rule range_of_set_cong)
    have "set (concat (map snd ?ps)) = (\<Union>(k, v) \<in> set ?ps. set v)" by auto
    then show "set (concat (map snd ?ps)) = set (map f (sched_cells sched))"
      using u by simp
  qed
  finally show ?thesis .
qed

section \<open>The writer on a lattice\<close>

lemma upto_shift: "map (\<lambda>x. x + a) [l..u] = [l + a..u + a]"
proof (induction "nat (u - l + 1)" arbitrary: l)
  case 0
  then show ?case by simp
next
  case (Suc n)
  then have le: "l \<le> u" by simp
  have "n = nat (u - (l + 1) + 1)" using Suc.hyps(2) by simp
  from Suc.hyps(1) [OF this] have IH: "map (\<lambda>x. x + a) [l + 1..u] = [l + 1 + a..u + a]" .
  have e: "l + 1 + a = l + a + 1" by simp
  have 1: "[l..u] = l # [l + 1..u]" by (rule upto_rec1 [OF le])
  have 2: "[l + a..u + a] = (l + a) # [l + a + 1..u + a]" by (rule upto_rec1) (use le in simp)
  show ?case unfolding 1 2 using IH by (simp only: list.map e)
qed

lemma upto_append: "l \<le> m + 1 \<Longrightarrow> m \<le> u \<Longrightarrow> [l..m] @ [m + 1..u] = [l..u]"
proof -
  assume a: "l \<le> m + 1" "m \<le> u"
  show ?thesis
  proof (cases "l \<le> m")
    case True
    then show ?thesis using a by (simp add: upto_split2 [of l m u])
  next
    case False
    then have "l = m + 1" using a by simp
    then show ?thesis by simp
  qed
qed

lemma concat_blocks:
  assumes "0 \<le> n"
  shows "concat (map (\<lambda>i. [a + i * n..a + i * n + n - 1]) [0..int m - 1]) = [a..a + int m * n - 1]"
proof (induction m)
  case 0
  show ?case by simp
next
  case (Suc m)
  have "[0..int (Suc m) - 1] = [0..int m - 1] @ [int m]"
    using upto_rec2 [of 0 "int m"] by simp
  then have "concat (map (\<lambda>i. [a + i * n..a + i * n + n - 1]) [0..int (Suc m) - 1])
      = [a..a + int m * n - 1] @ [a + int m * n..a + int m * n + n - 1]"
    by (simp add: Suc.IH)
  also have "\<dots> = [a..a + int m * n + n - 1]"
    using upto_append [of a "a + int m * n - 1" "a + int m * n + n - 1"] assms by simp
  also have "a + int m * n + n - 1 = a + int (Suc m) * n - 1"
    by (simp add: algebra_simps)
  finally show ?case .
qed

lemma map_flat_index_cells:
  assumes "0 \<le> w" "0 \<le> h" "0 \<le> d"
  shows "map (flat_index w h) (bbox_cells (CoordBBox (Coord 0 0 0) (Coord (w - 1) (h - 1) (d - 1))))
       = [0..w * h * d - 1]"
proof -
  have row: "map (\<lambda>x. flat_index w h (Coord x y z)) [0..w - 1]
      = [z * (w * h) + y * w..z * (w * h) + y * w + w - 1]" for y z
  proof -
    have "map (\<lambda>x. flat_index w h (Coord x y z)) [0..w - 1]
        = map (\<lambda>x. x + (z * (w * h) + y * w)) [0..w - 1]"
      by (simp add: flat_index_def algebra_simps)
    then show ?thesis by (simp add: upto_shift algebra_simps)
  qed
  have slab: "concat (map (\<lambda>y. map (\<lambda>x. flat_index w h (Coord x y z)) [0..w - 1]) [0..h - 1])
      = [0 + z * (w * h)..0 + z * (w * h) + w * h - 1]" for z
  proof -
    have "concat (map (\<lambda>y. map (\<lambda>x. flat_index w h (Coord x y z)) [0..w - 1]) [0..h - 1])
        = concat (map (\<lambda>y. [z * (w * h) + y * w..z * (w * h) + y * w + w - 1]) [0..int (nat h) - 1])"
      using assms(2) by (simp add: row)
    also have "\<dots> = [z * (w * h)..z * (w * h) + int (nat h) * w - 1]"
      by (rule concat_blocks [OF assms(1)])
    finally show ?thesis using assms(2) by (simp add: algebra_simps)
  qed
  have "map (flat_index w h) (bbox_cells (CoordBBox (Coord 0 0 0) (Coord (w - 1) (h - 1) (d - 1))))
      = concat (map (\<lambda>z. concat (map (\<lambda>y. map (\<lambda>x. flat_index w h (Coord x y z)) [0..w - 1])
          [0..h - 1])) [0..d - 1])"
    by (simp add: bbox_cells_def map_concat comp_def)
  also have "\<dots> = concat (map (\<lambda>z. [0 + z * (w * h)..0 + z * (w * h) + w * h - 1]) [0..int (nat d) - 1])"
    using assms(3) by (simp only: slab) simp
  also have "\<dots> = [0..0 + int (nat d) * (w * h) - 1]"
    by (rule concat_blocks) (use assms in simp)
  finally show ?thesis using assms(3) by (simp add: algebra_simps)
qed

lemma flat_index_bounds:
  assumes "0 \<le> w" "0 \<le> h" "0 \<le> d" and "c \<in> set (bbox_cells (lattice_box w h d))"
  shows "0 \<le> flat_index w h c \<and> flat_index w h c < w * h * d"
proof -
  have "flat_index w h c \<in> set (map (flat_index w h) (bbox_cells (lattice_box w h d)))"
    using assms(4) by simp
  then have "flat_index w h c \<in> set [0..w * h * d - 1]"
    unfolding lattice_box_def by (simp only: map_flat_index_cells [OF assms(1-3)])
  then show ?thesis by simp
qed

lemma product_bounds:
  assumes "1 \<le> (w::int)" "1 \<le> h" "1 \<le> d"
  shows "w * h \<le> w * h * d" and "1 \<le> w * h"
proof -
  have p: "1 \<le> w * h" using assms(1,2) by (metis mult_mono mult_1 zero_le_one order_trans)
  then have "w * h * 1 \<le> w * h * d" using assms(3) by (intro mult_left_mono) simp_all
  then show "w * h \<le> w * h * d" by simp
  show "1 \<le> w * h" by (rule p)
qed

lemma linear_index_flat:
  assumes "1 \<le> w" "1 \<le> h" "1 \<le> d" and small: "4 * (w * h * d) \<le> INT_MAX"
    and c: "c \<in> set (bbox_cells (lattice_box w h d))"
  shows "linear_index (Coord 1 w (wrap32 (w * h))) c = 4 * flat_index w h c"
proof -
  have b: "0 \<le> flat_index w h c" "flat_index w h c < w * h * d"
    using flat_index_bounds [OF _ _ _ c] assms(1-3) by simp_all
  have wh: "wrap32 (w * h) = w * h"
    using product_bounds [OF assms(1-3)] small by (intro wrap32_id) (simp_all add: INT_MAX_def)
  have d: "dot c (Coord 1 w (wrap32 (w * h))) = flat_index w h c"
    unfolding dot_def wh using b small
    by (simp add: flat_index_def) (subst wrap32_id, simp_all add: INT_MAX_def flat_index_def)
  show ?thesis
    unfolding linear_index_def d using b small by (subst wrap32_id) (simp_all add: INT_MAX_def)
qed

lemma mset_concat_map_cong:
  assumes "mset xs = mset ys"
  shows "mset (concat (map g xs)) = mset (concat (map g ys))"
proof -
  have "mset (concat (map g zs)) = sum_mset (image_mset (\<lambda>x. mset (g x)) (mset zs))" for zs
    by (induction zs) simp_all
  then show ?thesis using assms by simp
qed

lemma upto4: "[k * 4..k * 4 + 4 - 1] = [k * 4, k * 4 + 1, k * 4 + 2, k * 4 + 3]"
  by (simp add: upto_rec1)

lemma store_offsets_lattice:
  assumes "1 \<le> w" "1 \<le> h" "1 \<le> d" and small: "4 * (w * h * d) \<le> INT_MAX"
  shows "map fst (concat (map (cell_stores f (Coord 1 w (wrap32 (w * h))))
            (bbox_cells (lattice_box w h d)))) = [0..4 * (w * h * d) - 1]"
proof -
  let ?cells = "bbox_cells (lattice_box w h d)"
  let ?stride = "Coord 1 w (wrap32 (w * h))"
  have whd: "0 \<le> w * h * d" using assms(1-3) by simp
  have "map fst (concat (map (cell_stores f ?stride) ?cells))
      = concat (map (\<lambda>c. [0 + flat_index w h c * 4..0 + flat_index w h c * 4 + 4 - 1]) ?cells)"
  proof -
    have "map fst (cell_stores f ?stride c)
        = [0 + flat_index w h c * 4..0 + flat_index w h c * 4 + 4 - 1]" if "c \<in> set ?cells" for c
    proof -
      have li: "linear_index ?stride c = 4 * flat_index w h c"
        by (rule linear_index_flat [OF assms that])
      have "map fst (cell_stores f ?stride c)
          = [flat_index w h c * 4, flat_index w h c * 4 + 1, flat_index w h c * 4 + 2,
             flat_index w h c * 4 + 3]"
        unfolding cell_stores_def li by (simp add: mult.commute)
      then show ?thesis using upto4 [of "flat_index w h c"] by simp
    qed
    then show ?thesis by (simp add: map_concat comp_def cong: map_cong)
  qed
  also have "\<dots> = concat (map (\<lambda>k. [0 + k * 4..0 + k * 4 + 4 - 1]) (map (flat_index w h) ?cells))"
    by (simp add: comp_def)
  also have "map (flat_index w h) ?cells = [0..int (nat (w * h * d)) - 1]"
    unfolding lattice_box_def using map_flat_index_cells [of w h d] assms(1-3) whd by simp
  also have "concat (map (\<lambda>k. [0 + k * 4..0 + k * 4 + 4 - 1]) [0..int (nat (w * h * d)) - 1])
      = [0..0 + int (nat (w * h * d)) * 4 - 1]"
    by (rule concat_blocks) simp
  finally show ?thesis using whd by (simp add: mult.commute)
qed

lemma store_offsets_schedule:
  assumes "1 \<le> w" "1 \<le> h" "1 \<le> d" and small: "4 * (w * h * d) \<le> INT_MAX"
    and vs: "valid_schedule (lattice_box w h d) sched"
  shows "mset (map fst (concat (map (cell_stores f (Coord 1 w (wrap32 (w * h))))
            (sched_cells sched)))) = mset [0..4 * (w * h * d) - 1]"
proof -
  let ?g = "\<lambda>c. map fst (cell_stores f (Coord 1 w (wrap32 (w * h))) c)"
  have "map fst (concat (map (cell_stores f (Coord 1 w (wrap32 (w * h)))) cs))
      = concat (map ?g cs)" for cs
    by (simp add: map_concat comp_def)
  then show ?thesis
    using mset_concat_map_cong [OF valid_schedule_mset [OF vs], of ?g]
      store_offsets_lattice [OF assms(1-4), of f]
    by simp
qed

lemma apply_stores_untouched:
  "a \<notin> fst ` set ws \<Longrightarrow> apply_stores ws buf a = buf a"
  by (induction ws arbitrary: buf) (auto simp: apply_stores_def)

lemma apply_stores_Cons:
  "apply_stores ((a, v) # ws) buf = apply_stores ws (buf(a := Finite v))"
  by (simp add: apply_stores_def)

lemma apply_stores_distinct:
  "distinct (map fst ws) \<Longrightarrow> (a, v) \<in> set ws \<Longrightarrow> apply_stores ws buf a = Finite v"
proof (induction ws arbitrary: buf)
  case Nil
  then show ?case by simp
next
  case (Cons p ws)
  obtain a' v' where p: "p = (a', v')" by (cases p)
  show ?case
  proof (cases "a = a'")
    case True
    then have n: "a \<notin> fst ` set ws" using Cons.prems(1) p by simp
    then have "(a, v) \<notin> set ws" by force
    then have "v = v'" using Cons.prems(2) p True by simp
    then show ?thesis using True n by (simp add: p apply_stores_Cons apply_stores_untouched)
  next
    case False
    then have "(a, v) \<in> set ws" using Cons.prems(2) p by simp
    moreover have "distinct (map fst ws)" using Cons.prems(1) by simp
    ultimately show ?thesis by (simp add: p apply_stores_Cons Cons.IH)
  qed
qed

lemma normalize_samples_eq:
  "normalize_samples rng n buf
     = (\<lambda>i. if 0 \<le> i \<and> i < int n then unlerp (getMin rng) (getMax rng) (buf i) else buf i)"
proof (induction n)
  case 0
  show ?case by (auto simp: normalize_samples_def fun_eq_iff)
next
  case (Suc n)
  have "normalize_samples rng (Suc n) buf
      = (normalize_samples rng n buf)
          (int n := unlerp (getMin rng) (getMax rng) (normalize_samples rng n buf (int n)))"
    by (simp add: normalize_samples_def)
  then show ?case unfolding Suc.IH by (auto simp: fun_eq_iff)
qed

lemma lattice_box_volume:
  assumes "1 \<le> w" "1 \<le> h" "1 \<le> d" and small: "4 * (w * h * d) \<le> INT_MAX"
  shows "w \<le> INT_MAX" "h \<le> INT_MAX" "d \<le> INT_MAX"
    "bbox_volume (lattice_box w h d) = w * h * d"
proof -
  have wh: "1 \<le> w * h" "w * h \<le> w * h * d" using product_bounds [OF assms(1-3)] by simp_all
  have ww: "w \<le> w * h" using mult_left_mono [of 1 h w] assms(1,2) by simp
  have hh: "h \<le> w * h" using mult_right_mono [of 1 w h] assms(1,2) by simp
  have dd: "d \<le> w * h * d" using mult_right_mono [of 1 "w * h" d] wh(1) assms(3) by simp
  show w: "w \<le> INT_MAX" using ww wh small assms(1) by linarith
  show h: "h \<le> INT_MAX" using hh wh small assms(2) by linarith
  show d: "d \<le> INT_MAX" using dd small assms(3) by linarith
  have dim: "bbox_dim (lattice_box w h d) = Coord w h d"
    using assms(1-3) w h d
    by (simp add: bbox_dim_def lattice_box_def offsetBy_def coord_sub_def wrap32_id INT_MAX_def)
  have "0 \<le> w * h * d" "w * h * d < 2 ^ 64" using wh small by (simp_all add: INT_MAX_def)
  moreover have "w mod 2 ^ 64 = w" "h mod 2 ^ 64 = h" "d mod 2 ^ 64 = d"
    using assms(1-3) w h d by (simp_all add: INT_MAX_def)
  ultimately show "bbox_volume (lattice_box w h d) = w * h * d"
    by (simp add: bbox_volume_def dim)
qed

lemma cell_stores_member:
  assumes "j \<in> {0, 1, 2, 3}"
  shows "(linear_index stride c + j, f c) \<in> set (cell_stores f stride c)"
  using assms by (auto simp: cell_stores_def)

lemma lattice_domain:
  assumes "1 \<le> w" "1 \<le> h" "1 \<le> d" and small: "4 * (w * h * d) \<le> INT_MAX"
  shows "CoordBBox (Coord 0 0 0) (coord_sub (Coord w h d) (Coord 1 1 1)) = lattice_box w h d"
  using assms lattice_box_volume(1-3) [OF assms]
  by (simp add: lattice_box_def lattice_domain_eq)

lemma valid_schedule_nonempty:
  "valid_schedule dm sched \<Longrightarrow> list_all (\<lambda>(t, b). \<not> bbox_empty b) sched"
  by (simp add: valid_schedule_def)

lemma cell_stores_cases:
  assumes "(i, v) \<in> set (cell_stores f stride c)"
  shows "\<exists>j \<in> {0, 1, 2, 3}. i = linear_index stride c + j"
proof -
  from assms consider "i = linear_index stride c + 0" | "i = linear_index stride c + 1"
    | "i = linear_index stride c + 2" | "i = linear_index stride c + 3"
    unfolding cell_stores_def by auto
  then show ?thesis
  proof cases
    case 1 then show ?thesis by (intro bexI [of _ 0]) simp_all
  next
    case 2 then show ?thesis by (intro bexI [of _ 1]) simp_all
  next
    case 3 then show ?thesis by (intro bexI [of _ 2]) simp_all
  next
    case 4 then show ?thesis by (intro bexI [of _ 3]) simp_all
  qed
qed

lemma in_concat_map:
  assumes "p \<in> set (concat (map g cs))"
  shows "\<exists>c \<in> set cs. p \<in> set (g c)"
  using assms by (induction cs) auto

lemma normalize_samples_inside:
  "0 \<le> i \<Longrightarrow> i < int n \<Longrightarrow>
   normalize_samples rng n buf i = unlerp (getMin rng) (getMax rng) (buf i)"
  by (simp add: normalize_samples_eq)

lemma normalize_samples_outside:
  "\<not> (0 \<le> i \<and> i < int n) \<Longrightarrow> normalize_samples rng n buf i = buf i"
  by (auto simp: normalize_samples_eq)

lemma sampleVolume_lattice:
  assumes dims: "1 \<le> w" "1 \<le> h" "1 \<le> d" and small: "4 * (w * h * d) \<le> INT_MAX"
    and vs: "valid_schedule (lattice_box w h d) sched"
  shows "\<exists>r. sampleVolume sched (Coord w h d) f vr buf = Some r \<and> returned r = None \<and>
     value_range r = range_of (map f (bbox_cells (lattice_box w h d))) \<and>
     mset (map fst (stored r)) = mset [0..4 * (w * h * d) - 1] \<and>
     mset (called r) = mset (bbox_cells (lattice_box w h d)) \<and>
     (\<forall>c \<in> set (bbox_cells (lattice_box w h d)). \<forall>j \<in> {0, 1, 2, 3}.
        (4 * flat_index w h c + j, f c) \<in> set (stored r) \<and>
        samples r (4 * flat_index w h c + j)
          = unlerp (getMin (value_range r)) (getMax (value_range r)) (Finite (f c))) \<and>
     (\<forall>i. 0 \<le> i \<and> i < 4 * (w * h * d) \<longrightarrow>
        (\<exists>c \<in> set (bbox_cells (lattice_box w h d)).
           samples r i = unlerp (getMin (value_range r)) (getMax (value_range r)) (Finite (f c)))) \<and>
     (\<forall>i. i < 0 \<or> 4 * (w * h * d) \<le> i \<longrightarrow> samples r i = buf i)"
proof -
  let ?stride = "Coord 1 w (wrap32 (w * h))"
  let ?S = "concat (map (cell_stores f ?stride) (sched_cells sched))"
  let ?rng = "merge_ranges (map snd (sched_ranges f sched []))"
  let ?n = "nat (wrap32 ((bbox_volume (lattice_box w h d) * 4) mod 2 ^ 64) mod 2 ^ 64)"
  let ?R = "apply_stores ?S buf"
  let ?r = "\<lparr>returned = None, value_range = ?rng, samples = normalize_samples ?rng ?n ?R,
            stored = ?S, called = sched_cells sched\<rparr>"
  note dom = lattice_domain [OF dims small]
  note ub = lattice_box_volume [OF dims small]
  have vs': "valid_schedule (CoordBBox (Coord 0 0 0) (coord_sub (Coord w h d) (Coord 1 1 1))) sched"
    using vs by (simp only: dom)
  have eq: "sampleVolume sched (Coord w h d) f vr buf = Some ?r"
    using sampleVolume_eq [of "Coord w h d" sched f vr buf, OF _ _ _ _ _ _ vs'] dims ub(1-3)
    by (simp add: dom)
  have whd: "1 \<le> w * h * d" using product_bounds [OF dims] by linarith
  have n: "int ?n = 4 * (w * h * d)"
  proof -
    define v where "v = w * h * d"
    have v: "1 \<le> v" "4 * v \<le> 2147483647"
      using whd small unfolding v_def INT_MAX_def by simp_all
    have 1: "(v * 4) mod 2 ^ 64 = v * 4" using v by simp
    have 2: "wrap32 (v * 4) = v * 4" using v by (intro wrap32_id) simp_all
    have 3: "(v * 4) mod 2 ^ 64 = v * 4" using v by simp
    have "int (nat (wrap32 ((v * 4) mod 2 ^ 64) mod 2 ^ 64)) = 4 * v"
      unfolding 1 2 3 using v by simp
    then show ?thesis unfolding ub(4) v_def .
  qed
  have cells: "set (sched_cells sched) = set (bbox_cells (lattice_box w h d))"
    by (rule valid_schedule_set [OF vs])
  have rng: "?rng = range_of (map f (bbox_cells (lattice_box w h d)))"
  proof -
    have "?rng = range_of (map f (sched_cells sched))"
      by (rule sched_ranges_merge [OF valid_schedule_nonempty [OF vs]])
    also have "\<dots> = range_of (map f (bbox_cells (lattice_box w h d)))"
      by (rule range_of_set_cong) (simp add: cells)
    finally show ?thesis .
  qed
  have offs: "mset (map fst ?S) = mset [0..4 * (w * h * d) - 1]"
    by (rule store_offsets_schedule [OF dims small vs])
  have dist: "distinct (map fst ?S)"
    using offs by (metis distinct_upto mset_eq_imp_distinct_iff)
  have fset: "fst ` set ?S = {0..4 * (w * h * d) - 1}"
    using mset_eq_setD [OF offs] by simp
  have per_cell: "(4 * flat_index w h c + j, f c) \<in> set ?S \<and>
        normalize_samples ?rng ?n ?R (4 * flat_index w h c + j)
          = unlerp (getMin ?rng) (getMax ?rng) (Finite (f c))"
    if c: "c \<in> set (bbox_cells (lattice_box w h d))" and j: "j \<in> {0, 1, 2, 3}" for c j
  proof -
    have li: "linear_index ?stride c = 4 * flat_index w h c"
      by (rule linear_index_flat [OF dims small c])
    have "(linear_index ?stride c + j, f c) \<in> set (cell_stores f ?stride c)"
      by (rule cell_stores_member [OF j])
    moreover have "c \<in> set (sched_cells sched)" using c cells by simp
    ultimately have mem: "(4 * flat_index w h c + j, f c) \<in> set ?S"
      unfolding li by auto
    have raw: "?R (4 * flat_index w h c + j) = Finite (f c)"
      by (rule apply_stores_distinct [OF dist mem])
    have b: "0 \<le> flat_index w h c" "flat_index w h c < w * h * d"
      using flat_index_bounds [OF _ _ _ c] dims by simp_all
    have "0 \<le> 4 * flat_index w h c + j" "4 * flat_index w h c + j < int ?n"
      unfolding n using b j by auto
    then have "normalize_samples ?rng ?n ?R (4 * flat_index w h c + j)
        = unlerp (getMin ?rng) (getMax ?rng) (?R (4 * flat_index w h c + j))"
      by (rule normalize_samples_inside)
    then show ?thesis using mem unfolding raw by (rule conjI [rotated])
  qed
  have inside: "\<exists>c \<in> set (bbox_cells (lattice_box w h d)).
        normalize_samples ?rng ?n ?R i = unlerp (getMin ?rng) (getMax ?rng) (Finite (f c))"
    if i: "0 \<le> i" "i < 4 * (w * h * d)" for i
  proof -
    have "i \<in> fst ` set ?S" unfolding fset using i by simp
    then obtain p where p: "p \<in> set ?S" "i = fst p" by (rule imageE)
    obtain c where c: "c \<in> set (sched_cells sched)" "p \<in> set (cell_stores f ?stride c)"
      using in_concat_map [OF p(1)] by (rule bexE)
    have "(i, snd p) \<in> set (cell_stores f ?stride c)" using c(2) p(2) by simp
    from cell_stores_cases [OF this]
    obtain j where j: "j \<in> {0, 1, 2, 3}" "i = linear_index ?stride c + j"
      by (rule bexE)
    have c': "c \<in> set (bbox_cells (lattice_box w h d))" using c cells by simp
    have e: "i = 4 * flat_index w h c + j"
      using j linear_index_flat [OF dims small c'] by simp
    from per_cell [OF c' j(1)]
    have "normalize_samples ?rng ?n ?R i = unlerp (getMin ?rng) (getMax ?rng) (Finite (f c))"
      unfolding e by (rule conjunct2)
    then show ?thesis using c' by (rule bexI)
  qed
  have outside: "normalize_samples ?rng ?n ?R i = buf i" if "i < 0 \<or> 4 * (w * h * d) \<le> i" for i
  proof -
    have "i \<notin> fst ` set ?S" using that unfolding fset by auto
    then have raw: "?R i = buf i" by (rule apply_stores_untouched)
    have out: "\<not> (0 \<le> i \<and> i < int ?n)" unfolding n using that by auto
    show ?thesis unfolding normalize_samples_outside [OF out] by (rule raw)
  qed
  have sel: "returned ?r = None" "value_range ?r = ?rng" "stored ?r = ?S"
    "called ?r = sched_cells sched" "samples ?r = normalize_samples ?rng ?n ?R"
    by simp_all
  have "returned ?r = None \<and>
     value_range ?r = range_of (map f (bbox_cells (lattice_box w h d))) \<and>
     mset (map fst (stored ?r)) = mset [0..4 * (w * h * d) - 1] \<and>
     mset (called ?r) = mset (bbox_cells (lattice_box w h d)) \<and>
     (\<forall>c \<in> set (bbox_cells (lattice_box w h d)). \<forall>j \<in> {0, 1, 2, 3}.
        (4 * flat_index w h c + j, f c) \<in> set (stored ?r) \<and>
        samples ?r (4 * flat_index w h c + j)
          = unlerp (getMin (value_range ?r)) (getMax (value_range ?r)) (Finite (f c))) \<and>
     (\<forall>i. 0 \<le> i \<and> i < 4 * (w * h * d) \<longrightarrow>
        (\<exists>c \<in> set (bbox_cells (lattice_box w h d)).
           samples ?r i = unlerp (getMin (value_range ?r)) (getMax (value_range ?r)) (Finite (f c)))) \<and>
     (\<forall>i. i < 0 \<or> 4 * (w * h * d) \<le> i \<longrightarrow> samples ?r i = buf i)"
    unfolding sel
  proof (intro conjI ballI allI impI)
    show "?rng = range_of (map f (bbox_cells (lattice_box w h d)))" by (rule rng)
    show "mset (map fst ?S) = mset [0..4 * (w * h * d) - 1]" by (rule offs)
    show "mset (sched_cells sched) = mset (bbox_cells (lattice_box w h d))"
      by (rule valid_schedule_mset [OF vs])
  next
    fix c and j :: int
    assume "c \<in> set (bbox_cells (lattice_box w h d))" "j \<in> {0, 1, 2, 3}"
    from per_cell [OF this]
    show "(4 * flat_index w h c + j, f c) \<in> set ?S"
      and "normalize_samples ?rng ?n ?R (4 * flat_index w h c + j)
          = unlerp (getMin ?rng) (getMax ?rng) (Finite (f c))"
      by (rule conjunct1, rule conjunct2)
  next
    fix i assume "0 \<le> i \<and> i < 4 * (w * h * d)"
    then show "\<exists>c \<in> set (bbox_cells (lattice_box w h d)).
        normalize_samples ?rng ?n ?R i = unlerp (getMin ?rng) (getMax ?rng) (Finite (f c))"
      using inside by blast
  next
    fix i assume "i < 0 \<or> 4 * (w * h * d) \<le> i"
    then show "normalize_samples ?rng ?n ?R i = buf i" by (rule outside)
  qed simp
  with eq show ?thesis by blast
qed

section \<open>fillTextureBuffer\<close>

lemma sampleGrid_empty:
  assumes "bbox_empty (getIndexSpaceBoundingBox grid)"
  shows "sampleGrid sched grid ext vr buf =
     Some \<lparr>g_returned = Some False, g_value_range = vr,
           g_scale = bboxd_extents (world_box grid),
           g_samples = buf, g_stored = [], g_called = []\<rparr>"
  using assms by (simp add: sampleGrid_def world_box_def)

lemma fill_null:
  assumes "voxels data = None"
  shows "fillTextureBuffer sched vol data =
     Some \<lparr>f_volume = vol, f_data = data, f_sampled = None, f_stored = [], f_called = []\<rparr>"
  using assms by (simp add: fillTextureBuffer_def)

lemma fill_empty:
  assumes "bbox_empty (getIndexSpaceBoundingBox (m_grid vol))" and "voxels data = Some buf"
  shows "fillTextureBuffer sched vol data =
     Some \<lparr>f_volume = published vol ValueRange, f_data = data, f_sampled = Some (Some False),
           f_stored = [], f_called = []\<rparr>"
proof -
  have "data\<lparr>voxels := Some buf\<rparr> = data" using assms(2) by simp
  then show ?thesis
    using assms by (simp add: fillTextureBuffer_def sampleGrid_empty published_def)
qed

lemma sampleGrid_nonempty:
  assumes "\<not> bbox_empty (getIndexSpaceBoundingBox grid)"
  shows "sampleGrid sched grid ext vr buf =
     Option.bind (sampleVolume sched ext (lattice_sample grid ext) vr buf)
       (\<lambda>r. Some \<lparr>g_returned = None, g_value_range = value_range r,
                   g_scale = bboxd_extents (world_box grid),
                   g_samples = samples r, g_stored = stored r, g_called = called r\<rparr>)"
proof -
  have "lattice_sample grid ext = sampling_func grid (world_box grid) (asVec3d ext)"
    by (rule ext) (simp add: lattice_sample_def)
  then show ?thesis using assms by (simp add: sampleGrid_def world_box_def Let_def)
qed

lemma fill_lattice:
  assumes s: "width (m_summary vol) = w" "height (m_summary vol) = h" "depth (m_summary vol) = d"
    and dims: "1 \<le> w" "1 \<le> h" "1 \<le> d" and small: "4 * (w * h * d) \<le> INT_MAX"
    and ne: "\<not> bbox_empty (getIndexSpaceBoundingBox (m_grid vol))"
    and vs: "valid_schedule (lattice_box w h d) sched"
    and buf: "voxels data = Some buf"
  shows "\<exists>r out. fillTextureBuffer sched vol data = Some r \<and>
     f_data r = data\<lparr>voxels := Some out\<rparr> \<and> f_sampled r = Some None \<and>
     f_volume r = published vol (lattice_range (m_grid vol) w h d) \<and>
     mset (map fst (f_stored r)) = mset [0..4 * (w * h * d) - 1] \<and>
     mset (f_called r) = mset (bbox_cells (lattice_box w h d)) \<and>
     (\<forall>c \<in> set (bbox_cells (lattice_box w h d)). \<forall>j \<in> {0, 1, 2, 3}.
        (4 * flat_index w h c + j, lattice_sample (m_grid vol) (Coord w h d) c) \<in> set (f_stored r) \<and>
        out (4 * flat_index w h c + j)
          = unlerp (getMin (lattice_range (m_grid vol) w h d)) (getMax (lattice_range (m_grid vol) w h d))
              (Finite (lattice_sample (m_grid vol) (Coord w h d) c))) \<and>
     (\<forall>i. 0 \<le> i \<and> i < 4 * (w * h * d) \<longrightarrow>
        (\<exists>c \<in> set (bbox_cells (lattice_box w h d)).
           out i = unlerp (getMin (lattice_range (m_grid vol) w h d))
                     (getMax (lattice_range (m_grid vol) w h d))
                     (Finite (lattice_sample (m_grid vol) (Coord w h d) c)))) \<and>
     (\<forall>i. i < 0 \<or> 4 * (w * h * d) \<le> i \<longrightarrow> out i = buf i)"
proof -
  let ?f = "lattice_sample (m_grid vol) (Coord w h d)"
  from sampleVolume_lattice [OF dims small vs, of ?f ValueRange buf]
  obtain r where r: "sampleVolume sched (Coord w h d) ?f ValueRange buf = Some r"
    and ret: "returned r = None"
    and rng: "value_range r = lattice_range (m_grid vol) w h d"
    and st: "mset (map fst (stored r)) = mset [0..4 * (w * h * d) - 1]"
    and ca: "mset (called r) = mset (bbox_cells (lattice_box w h d))"
    and cell: "\<forall>c \<in> set (bbox_cells (lattice_box w h d)). \<forall>j \<in> {0, 1, 2, 3}.
        (4 * flat_index w h c + j, ?f c) \<in> set (stored r) \<and>
        samples r (4 * flat_index w h c + j)
          = unlerp (getMin (value_range r)) (getMax (value_range r)) (Finite (?f c))"
    and ins: "\<forall>i. 0 \<le> i \<and> i < 4 * (w * h * d) \<longrightarrow>
        (\<exists>c \<in> set (bbox_cells (lattice_box w h d)).
           samples r i = unlerp (getMin (value_range r)) (getMax (value_range r)) (Finite (?f c)))"
    and out: "\<forall>i. i < 0 \<or> 4 * (w * h * d) \<le> i \<longrightarrow> samples r i = buf i"
    unfolding lattice_range_def by blast
  let ?res = "\<lparr>f_volume = published vol (value_range r),
               f_data = data\<lparr>voxels := Some (samples r)\<rparr>,
               f_sampled = Some None, f_stored = stored r, f_called = called r\<rparr>"
  have "fillTextureBuffer sched vol data = Some ?res"
    by (simp add: fillTextureBuffer_def buf s sampleGrid_nonempty [OF ne] r published_def)
  moreover have "f_data ?res = data\<lparr>voxels := Some (samples r)\<rparr>" by simp
  ultimately show ?thesis
    using rng st ca cell ins out
    by (intro exI [of _ ?res] exI [of _ "samples r"]) simp
qed

lemma sampleVolume_empty_domain:
  assumes "bbox_empty (CoordBBox (Coord 0 0 0) (coord_sub ext (Coord 1 1 1)))"
  shows "sampleVolume sched ext f vr buf =
     Some \<lparr>returned = Some False, value_range = vr, samples = buf, stored = [], called = []\<rparr>"
  using assms by (simp add: sampleVolume_def)

lemma fill_empty_domain:
  assumes "bbox_empty (CoordBBox (Coord 0 0 0)
      (coord_sub (Coord (width (m_summary vol)) (height (m_summary vol)) (depth (m_summary vol)))
         (Coord 1 1 1)))"
    and "\<not> bbox_empty (getIndexSpaceBoundingBox (m_grid vol))"
    and "voxels data = Some buf"
  shows "fillTextureBuffer sched vol data =
     Some \<lparr>f_volume = published vol ValueRange, f_data = data, f_sampled = Some None,
           f_stored = [], f_called = []\<rparr>"
proof -
  have "data\<lparr>voxels := Some buf\<rparr> = data" using assms(3) by simp
  then show ?thesis
    using assms
    by (simp add: fillTextureBuffer_def sampleGrid_nonempty sampleVolume_empty_domain published_def)
qed

lemma published_summary:
  "min_value (m_summary (published vol r)) = getMin r"
  "max_value (m_summary (published vol r)) = getMax r"
  "x_scale (m_summary (published vol r)) = vx (bboxd_extents (world_box (m_grid vol))) * m_scaleFactor vol"
  "y_scale (m_summary (published vol r)) = vy (bboxd_extents (world_box (m_grid vol))) * m_scaleFactor vol"
  "z_scale (m_summary (published vol r)) = vz (bboxd_extents (world_box (m_grid vol))) * m_scaleFactor vol"
  by (simp_all add: published_def)

lemma example_volume_sel:
  "m_grid (example_volume grid ext) = grid"
  "m_scaleFactor (example_volume grid ext) = 1"
  "width (m_summary (example_volume grid ext)) = cx ext"
  "height (m_summary (example_volume grid ext)) = cy ext"
  "depth (m_summary (example_volume grid ext)) = cz ext"
  "min_value (m_summary (example_volume grid ext)) = 0"
  "max_value (m_summary (example_volume grid ext)) = 1"
  "x_scale (m_summary (example_volume grid ext)) = 1"
  by (simp_all add: example_volume_def new_oiVolume_def new_oiVolumeSummary_def)

lemma sampleGrid_scale:
  assumes "sampleGrid sched grid ext vr buf = Some g"
  shows "g_scale g = bboxd_extents (world_box grid)"
proof (cases "bbox_empty (getIndexSpaceBoundingBox grid)")
  case True
  from assms show ?thesis unfolding sampleGrid_empty [OF True] by auto
next
  case False
  from assms show ?thesis
    unfolding sampleGrid_nonempty [OF False] by (auto simp: bind_eq_Some_conv)
qed

lemma fill_publishes:
  assumes "fillTextureBuffer sched vol data = Some r"
  shows "f_volume r = vol \<or> (\<exists>rng. f_volume r = published vol rng)"
proof (cases "voxels data")
  case None
  from assms show ?thesis unfolding fill_null [OF None] by auto
next
  case (Some buf)
  from assms obtain g where g: "sampleGrid sched (m_grid vol)
        (Coord (width (m_summary vol)) (height (m_summary vol)) (depth (m_summary vol)))
        ValueRange buf = Some g"
    and r: "f_volume r = vol\<lparr>m_summary := (m_summary vol)
                       \<lparr>min_value := getMin (g_value_range g),
                        max_value := getMax (g_value_range g),
                        x_scale := vx (g_scale g) * m_scaleFactor vol,
                        y_scale := vy (g_scale g) * m_scaleFactor vol,
                        z_scale := vz (g_scale g) * m_scaleFactor vol\<rparr>\<rparr>"
    by (auto simp: fillTextureBuffer_def Some bind_eq_Some_conv)
  have "f_volume r = published vol (g_value_range g)"
    unfolding r published_def sampleGrid_scale [OF g] by simp
  then show ?thesis by blast
qed

lemma fill_publishes_buffer:
  assumes "fillTextureBuffer sched vol data = Some r" and "voxels data = Some buf"
  shows "\<exists>rng. f_volume r = published vol rng"
proof -
  from assms obtain g where g: "sampleGrid sched (m_grid vol)
        (Coord (width (m_summary vol)) (height (m_summary vol)) (depth (m_summary vol)))
        ValueRange buf = Some g"
    and r: "f_volume r = vol\<lparr>m_summary := (m_summary vol)
                       \<lparr>min_value := getMin (g_value_range g),
                        max_value := getMax (g_value_range g),
                        x_scale := vx (g_scale g) * m_scaleFactor vol,
                        y_scale := vy (g_scale g) * m_scaleFactor vol,
                        z_scale := vz (g_scale g) * m_scaleFactor vol\<rparr>\<rparr>"
    by (auto simp: fillTextureBuffer_def bind_eq_Some_conv)
  have "f_volume r = published vol (g_value_range g)"
    unfolding r published_def sampleGrid_scale [OF g] by simp
  then show ?thesis by blast
qed

lemma setScaleFactor_sel:
  "m_grid (setScaleFactor k vol) = m_grid vol"
  "m_scaleFactor (setScaleFactor k vol) = k"
  "m_summary (setScaleFactor k vol) = m_summary vol"
  "m_extents (setScaleFactor k vol) = m_extents vol"
  by (simp_all add: setScaleFactor_def)

text \<open>
  Claim C9. After \<open>setScaleFactor k\<close>, a fill with a destination leaves in \<open>x_scale\<close>,
  \<open>y_scale\<close> and \<open>z_scale\<close> the world-space extent of the transformed bounding box on
  that axis multiplied by \<open>k\<close>, which is \<open>k\<close> times the value the same fill leaves under the
  factor 1. Products are taken in the reals.
\<close>

theorem scale_factor_scales_summary:
  assumes "voxels data = Some buf"
    and "fillTextureBuffer sched (setScaleFactor k vol) data = Some rk"
    and "fillTextureBuffer sched (setScaleFactor 1 vol) data = Some r1"
  shows "x_scale (m_summary (f_volume rk))
           = vx (bboxd_extents (indexToWorld (m_grid vol) (getIndexSpaceBoundingBox (m_grid vol)))) * k \<and>
         y_scale (m_summary (f_volume rk))
           = vy (bboxd_extents (indexToWorld (m_grid vol) (getIndexSpaceBoundingBox (m_grid vol)))) * k \<and>
         z_scale (m_summary (f_volume rk))
           = vz (bboxd_extents (indexToWorld (m_grid vol) (getIndexSpaceBoundingBox (m_grid vol)))) * k \<and>
         x_scale (m_summary (f_volume rk)) = x_scale (m_summary (f_volume r1)) * k \<and>
         y_scale (m_summary (f_volume rk)) = y_scale (m_summary (f_volume r1)) * k \<and>
         z_scale (m_summary (f_volume rk)) = z_scale (m_summary (f_volume r1)) * k"
proof -
  from fill_publishes_buffer [OF assms(2,1)] obtain a
    where a: "f_volume rk = published (setScaleFactor k vol) a" by blast
  from fill_publishes_buffer [OF assms(3,1)] obtain b
    where b: "f_volume r1 = published (setScaleFactor 1 vol) b" by blast
  show ?thesis
    unfolding a b by (simp add: published_summary setScaleFactor_sel world_box_def)
qed

lemma one_box_valid:
  assumes "1 \<le> w" "w \<le> INT_MAX" "1 \<le> h" "h \<le> INT_MAX" "1 \<le> d" "d \<le> INT_MAX"
  shows "valid_schedule (lattice_box w h d) (one_box (Coord w h d))"
  using assms
  by (simp add: valid_schedule_def one_box_def lattice_box_def coord_sub_def wrap32_id
      INT_MAX_def bbox_empty_def)

lemma example_fill_Some:
  assumes "1 \<le> w" "1 \<le> h" "1 \<le> d" and "4 * (w * h * d) \<le> INT_MAX"
    and "m_grid vol = example_grid fld"
    and "width (m_summary vol) = w" "height (m_summary vol) = h" "depth (m_summary vol) = d"
  shows "\<exists>r. fillTextureBuffer (one_box (Coord w h d)) vol example_data = Some r"
proof -
  have ne: "\<not> bbox_empty (getIndexSpaceBoundingBox (m_grid vol))"
    by (simp add: assms(5) example_grid_bbox bbox_empty_def)
  have vs: "valid_schedule (lattice_box w h d) (one_box (Coord w h d))"
    using assms(1-3) lattice_box_volume(1-3) [OF assms(1-4)] by (intro one_box_valid)
  have v: "voxels example_data = Some example_buffer" by (simp add: example_data_def)
  from fill_lattice [OF assms(6-8) assms(1-4) ne vs v] show ?thesis by blast
qed

lemma example_world_box:
  "bboxd_extents (indexToWorld (example_grid fld) (getIndexSpaceBoundingBox (example_grid fld)))
     = Vec3d 1 1 1"
  "wmin (indexToWorld (example_grid fld) (getIndexSpaceBoundingBox (example_grid fld)))
     = Vec3d 0 0 0"
  by (simp_all add: example_grid_bbox example_grid_sel identity_transform_def bboxd_extents_def
      vec_sub_def asVec3d_def)

text \<open>
  Claim C9 on the unit-box grid with the factor 2.
\<close>

theorem scale_factor_scales_summary_witness:
  "\<exists>rk r1.
     fillTextureBuffer (one_box (Coord 2 1 1))
       (setScaleFactor 2 (example_volume (example_grid ramp_field) (Coord 2 1 1))) example_data = Some rk \<and>
     fillTextureBuffer (one_box (Coord 2 1 1))
       (setScaleFactor 1 (example_volume (example_grid ramp_field) (Coord 2 1 1))) example_data = Some r1 \<and>
     x_scale (m_summary (f_volume rk)) = 2 \<and>
     x_scale (m_summary (f_volume rk)) = x_scale (m_summary (f_volume r1)) * 2"
proof -
  let ?V = "example_volume (example_grid ramp_field) (Coord 2 1 1)"
  have v: "voxels example_data = Some example_buffer" by (simp add: example_data_def)
  obtain rk where rk: "fillTextureBuffer (one_box (Coord 2 1 1)) (setScaleFactor 2 ?V) example_data = Some rk"
    using example_fill_Some [of 2 1 1 "setScaleFactor 2 ?V" ramp_field]
    by (auto simp: setScaleFactor_sel example_volume_sel INT_MAX_def)
  obtain r1 where r1: "fillTextureBuffer (one_box (Coord 2 1 1)) (setScaleFactor 1 ?V) example_data = Some r1"
    using example_fill_Some [of 2 1 1 "setScaleFactor 1 ?V" ramp_field]
    by (auto simp: setScaleFactor_sel example_volume_sel INT_MAX_def)
  from scale_factor_scales_summary [OF v rk r1]
  have "x_scale (m_summary (f_volume rk)) = 2 \<and>
     x_scale (m_summary (f_volume rk)) = x_scale (m_summary (f_volume r1)) * 2"
    by (simp add: example_volume_sel example_world_box)
  with rk r1 show ?thesis by blast
qed

lemma published_fixed:
  "voxel_count (m_summary (published vol r)) = voxel_count (m_summary vol)"
  "width (m_summary (published vol r)) = width (m_summary vol)"
  "height (m_summary (published vol r)) = height (m_summary vol)"
  "depth (m_summary (published vol r)) = depth (m_summary vol)"
  "texture_format (m_summary (published vol r)) = texture_format (m_summary vol)"
  "m_grid (published vol r) = m_grid vol"
  "m_extents (published vol r) = m_extents vol"
  "m_scaleFactor (published vol r) = m_scaleFactor vol"
  by (simp_all add: published_def)

lemma no_metadata_world:
  "bboxd_extents (world_box example_grid_no_metadata) = Vec3d 4294967295 4294967295 4294967295"
proof -
  have "indexToWorld example_grid_no_metadata = identity_transform"
    by (simp add: example_grid_no_metadata_def)
  then have "world_box example_grid_no_metadata = identity_transform CoordBBox_default"
    by (simp only: world_box_def example_grid_no_metadata_bbox)
  then show ?thesis
    by (simp add: identity_transform_def CoordBBox_default_def asVec3d_def bboxd_extents_def
        vec_sub_def INT_MAX_def INT_MIN_def)
qed

text \<open>
  Claim C1. A fill whose bounding-box resolution yields an empty box should leave the
  summary's range and scale fields at their prior values and tell its caller that it
  failed. On a grid without stored bounds \<open>sampleGrid\<close> returns \<open>false\<close> and stores nothing,
  but \<open>fillTextureBuffer\<close> drops that result and assigns the summary all the same: a
  second failing fill after \<open>setScaleFactor 2\<close> doubles the \<open>x_scale\<close> the first one left,
  and the range fields hold the start value of a range no sample was added to.
\<close>

theorem failed_fill_rewrites_summary:
  "\<exists>r1 r2.
     fillTextureBuffer [] (example_volume example_grid_no_metadata (Coord 2 2 2)) example_data = Some r1 \<and>
     f_sampled r1 = Some (Some False) \<and>
     fillTextureBuffer [] (setScaleFactor 2 (f_volume r1)) example_data = Some r2 \<and>
     f_sampled r2 = Some (Some False) \<and> f_data r2 = example_data \<and> f_stored r2 = [] \<and>
     x_scale (m_summary (setScaleFactor 2 (f_volume r1))) = 4294967295 \<and>
     x_scale (m_summary (f_volume r2)) = 8589934590 \<and>
     min_value (m_summary (f_volume r2)) = FLT_MAX"
proof -
  let ?V = "example_volume example_grid_no_metadata (Coord 2 2 2)"
  let ?V1 = "published ?V ValueRange"
  let ?V2 = "setScaleFactor 2 ?V1"
  let ?r1 = "\<lparr>f_volume = ?V1, f_data = example_data, f_sampled = Some (Some False),
             f_stored = [], f_called = []\<rparr>"
  let ?r2 = "\<lparr>f_volume = published ?V2 ValueRange, f_data = example_data,
             f_sampled = Some (Some False), f_stored = [], f_called = []\<rparr>"
  have v: "voxels example_data = Some example_buffer" by (simp add: example_data_def)
  have e1: "bbox_empty (getIndexSpaceBoundingBox (m_grid ?V))"
    by (simp add: example_volume_sel example_grid_no_metadata_bbox bbox_empty_default)
  have g2: "m_grid ?V2 = example_grid_no_metadata"
    by (simp add: setScaleFactor_sel published_fixed example_volume_sel)
  have e2: "bbox_empty (getIndexSpaceBoundingBox (m_grid ?V2))"
    unfolding g2 by (simp add: example_grid_no_metadata_bbox bbox_empty_default)
  have f1: "fillTextureBuffer [] ?V example_data = Some ?r1" by (rule fill_empty [OF e1 v])
  have f2: "fillTextureBuffer [] ?V2 example_data = Some ?r2" by (rule fill_empty [OF e2 v])
  have x1: "x_scale (m_summary ?V2) = 4294967295"
    by (simp add: setScaleFactor_sel published_summary example_volume_sel no_metadata_world)
  have x2: "x_scale (m_summary (published ?V2 ValueRange)) = 8589934590"
    unfolding published_summary g2 by (simp add: setScaleFactor_sel no_metadata_world)
  have m2: "min_value (m_summary (published ?V2 ValueRange)) = FLT_MAX"
    by (simp add: published_summary getMin_def ValueRange_def)
  show ?thesis
    using f1 f2 x1 x2 m2 by (intro exI [of _ ?r1] exI [of _ ?r2]) simp
qed

lemma run_op_fixed:
  assumes "run_op op vol = Some vol'"
  shows "fixed_part vol' = fixed_part vol"
proof (cases op)
  case (SetScaleFactor k)
  with assms show ?thesis by (auto simp: fixed_part_def setScaleFactor_sel)
next
  case (FillTextureBuffer sched data)
  with assms obtain r where r: "fillTextureBuffer sched vol data = Some r" "vol' = f_volume r"
    by auto
  from fill_publishes [OF r(1)] show ?thesis
    unfolding r(2) by (auto simp: fixed_part_def published_fixed)
next
  case Reset
  with assms show ?thesis by (simp add: reset_def)
qed

lemma run_ops_fixed:
  "run_ops ops vol = Some vol' \<Longrightarrow> fixed_part vol' = fixed_part vol"
proof (induction ops arbitrary: vol)
  case Nil
  then show ?case by simp
next
  case (Cons op ops)
  then obtain v where v: "run_op op vol = Some v" "run_ops ops v = Some vol'"
    by (auto simp: bind_eq_Some_conv)
  from Cons.IH [OF v(2)] run_op_fixed [OF v(1)] show ?case by simp
qed

lemma published_as_update:
  "\<exists>mn mx sx sy sz. published vol r = vol\<lparr>m_summary := (m_summary vol)
       \<lparr>min_value := mn, max_value := mx, x_scale := sx, y_scale := sy, z_scale := sz\<rparr>\<rparr>"
  unfolding published_def by blast

lemma unchanged_as_update:
  "\<exists>mn mx sx sy sz. (vol::oiVolume) = vol\<lparr>m_summary := (m_summary vol)
       \<lparr>min_value := mn, max_value := mx, x_scale := sx, y_scale := sy, z_scale := sz\<rparr>\<rparr>"
proof -
  have "vol = vol\<lparr>m_summary := (m_summary vol)
       \<lparr>min_value := min_value (m_summary vol), max_value := max_value (m_summary vol),
        x_scale := x_scale (m_summary vol), y_scale := y_scale (m_summary vol),
        z_scale := z_scale (m_summary vol)\<rparr>\<rparr>" by simp
  then show ?thesis by blast
qed

text \<open>
  Claim C10. A fill changes nothing of the volume but the five range and scale fields of
  its summary; \<open>setScaleFactor\<close> changes the stored factor only; and after any sequence of
  operations on a freshly constructed volume the count, the three extents and the
  texture format of the summary are the values the constructor computed.
\<close>

theorem operations_frame:
  "(\<forall>r. fillTextureBuffer sched vol data = Some r \<longrightarrow>
      (\<exists>mn mx sx sy sz. f_volume r = vol\<lparr>m_summary := (m_summary vol)
         \<lparr>min_value := mn, max_value := mx, x_scale := sx, y_scale := sy, z_scale := sz\<rparr>\<rparr>)) \<and>
   setScaleFactor k vol = vol\<lparr>m_scaleFactor := k\<rparr> \<and>
   (\<forall>vol'. run_ops ops (new_oiVolume init grid ext) = Some vol' \<longrightarrow>
      voxel_count (m_summary vol') = wrap32 (wrap32 (cx ext * cy ext) * cz ext) \<and>
      width (m_summary vol') = cx ext \<and> height (m_summary vol') = cy ext \<and>
      depth (m_summary vol') = cz ext \<and> texture_format (m_summary vol') = 20)"
proof (intro conjI allI impI)
  fix r assume "fillTextureBuffer sched vol data = Some r"
  from fill_publishes [OF this]
  show "\<exists>mn mx sx sy sz. f_volume r = vol\<lparr>m_summary := (m_summary vol)
         \<lparr>min_value := mn, max_value := mx, x_scale := sx, y_scale := sy, z_scale := sz\<rparr>\<rparr>"
  proof (elim disjE exE)
    assume "f_volume r = vol"
    then show ?thesis by (simp only: unchanged_as_update [of vol])
  next
    fix rng assume "f_volume r = published vol rng"
    then show ?thesis by (simp only: published_as_update [of vol rng])
  qed
next
  show "setScaleFactor k vol = vol\<lparr>m_scaleFactor := k\<rparr>" by (simp add: setScaleFactor_def)
next
  fix vol' assume "run_ops ops (new_oiVolume init grid ext) = Some vol'"
  from run_ops_fixed [OF this]
  have f: "fixed_part vol' = (wrap32 (wrap32 (cx ext * cy ext) * cz ext), cx ext, cy ext, cz ext, 20)"
    by (cases init) (simp add: fixed_part_def new_oiVolume_def new_oiVolumeSummary_def)
  then show "voxel_count (m_summary vol') = wrap32 (wrap32 (cx ext * cy ext) * cz ext)"
    "width (m_summary vol') = cx ext" "height (m_summary vol') = cy ext"
    "depth (m_summary vol') = cz ext" "texture_format (m_summary vol') = 20"
    by (simp_all add: fixed_part_def)
qed

text \<open>
  Claim C10 on a volume that is rescaled, filled and reset.
\<close>

theorem operations_frame_witness:
  "\<exists>vol'. run_ops [SetScaleFactor 2, FillTextureBuffer (one_box (Coord 2 1 1)) example_data, Reset]
             (new_oiVolume (0, 1, 1, 1, 1) (example_grid ramp_field) (Coord 2 1 1)) = Some vol' \<and>
          voxel_count (m_summary vol') = 2 \<and> width (m_summary vol') = 2 \<and>
          height (m_summary vol') = 1 \<and> depth (m_summary vol') = 1 \<and>
          texture_format (m_summary vol') = 20"
proof -
  let ?V = "new_oiVolume (0, 1, 1, 1, 1) (example_grid ramp_field) (Coord 2 1 1)"
  have V: "?V = example_volume (example_grid ramp_field) (Coord 2 1 1)"
    by (simp add: example_volume_def)
  obtain r where r: "fillTextureBuffer (one_box (Coord 2 1 1)) (setScaleFactor 2 ?V) example_data = Some r"
    using example_fill_Some [of 2 1 1 "setScaleFactor 2 ?V" ramp_field]
    unfolding V by (auto simp: setScaleFactor_sel example_volume_sel INT_MAX_def)
  have run: "run_ops [SetScaleFactor 2, FillTextureBuffer (one_box (Coord 2 1 1)) example_data, Reset] ?V
      = Some (reset (f_volume r))"
    by (simp add: r)
  from operations_frame [of "[]" ?V example_data 2
      "[SetScaleFactor 2, FillTextureBuffer (one_box (Coord 2 1 1)) example_data, Reset]"
      "(0, 1, 1, 1, 1)" "example_grid ramp_field" "Coord 2 1 1"] run
  have "voxel_count (m_summary (reset (f_volume r))) = 2 \<and> width (m_summary (reset (f_volume r))) = 2 \<and>
          height (m_summary (reset (f_volume r))) = 1 \<and> depth (m_summary (reset (f_volume r))) = 1 \<and>
          texture_format (m_summary (reset (f_volume r))) = 20"
    by (simp add: wrap32_def)
  with run show ?thesis by blast
qed

section \<open>The filled buffer\<close>

lemma cells_2_1_1: "bbox_cells (lattice_box 2 1 1) = [Coord 0 0 0, Coord 1 0 0]"
  by (simp add: bbox_cells_def lattice_box_def upto_rec1)

lemma cells_2_2_2: "bbox_cells (lattice_box 2 2 2) =
  [Coord 0 0 0, Coord 1 0 0, Coord 0 1 0, Coord 1 1 0, Coord 0 0 1, Coord 1 0 1, Coord 0 1 1, Coord 1 1 1]"
  by (simp add: bbox_cells_def lattice_box_def upto_rec1)

lemma two_slabs_valid:
  "valid_schedule (lattice_box 2 2 2)
     [(0, CoordBBox (Coord 0 0 1) (Coord 1 1 1)), (1, CoordBBox (Coord 0 0 0) (Coord 1 1 0))]"
  by (simp add: valid_schedule_def cells_2_2_2 bbox_empty_def) (simp add: bbox_cells_def upto_rec1)

lemma example_world:
  "world_box (example_grid fld) = BBoxd (Vec3d 0 0 0) (Vec3d 1 1 1)"
  by (simp add: world_box_def example_grid_bbox example_grid_sel identity_transform_def asVec3d_def)

lemma example_lattice_sample:
  "lattice_sample (example_grid fld) ext c
     = fld (Vec3d ((real_of_int (cx c) + 1 / 2) / real_of_int (cx ext))
                  ((real_of_int (cy c) + 1 / 2) / real_of_int (cy ext))
                  ((real_of_int (cz c) + 1 / 2) / real_of_int (cz ext)))"
  by (simp add: lattice_sample_def sampling_func_eq example_world example_grid_sel
      spec_cell_center_def bboxd_extents_def vec_sub_def)

lemma ramp_samples:
  "lattice_sample (example_grid ramp_field) (Coord 2 1 1) (Coord 0 0 0) = - 2"
  "lattice_sample (example_grid ramp_field) (Coord 2 1 1) (Coord 1 0 0) = - 1"
  by (simp_all add: example_lattice_sample ramp_field_def)

lemma ramp_range:
  "lattice_range (example_grid ramp_field) 2 1 1 = \<lparr>m_min = - 2, m_max = FLT_MIN\<rparr>"
  by (simp add: lattice_range_def cells_2_1_1 ramp_samples range_of_def addValue_def ValueRange_def
      FLT_MAX_def FLT_MIN_def)

lemma ball2D: "(\<forall>c \<in> A. \<forall>j \<in> B. P c j) \<Longrightarrow> c \<in> A \<Longrightarrow> j \<in> B \<Longrightarrow> P c j"
  by blast

lemma distinct_lattice_cells:
  assumes "0 \<le> w" "0 \<le> h" "0 \<le> d"
  shows "distinct (bbox_cells (lattice_box w h d))"
proof -
  have "distinct (map (flat_index w h) (bbox_cells (lattice_box w h d)))"
    unfolding lattice_box_def map_flat_index_cells [OF assms] by simp
  then show ?thesis by (simp add: distinct_map)
qed

lemma in_lattice_cells:
  "Coord x y z \<in> set (bbox_cells (lattice_box w h d)) \<longleftrightarrow>
     0 \<le> x \<and> x < w \<and> 0 \<le> y \<and> y < h \<and> 0 \<le> z \<and> z < d"
  by (auto simp: in_bbox_cells lattice_box_def)

text \<open>
  Claim C6 (amended). On a grid with a non-empty resolved box and a lattice with all
  extents at least 1 and \<open>width * height * depth * 4 \<le> INT_MAX\<close>, for every schedule of
  sub-boxes that partitions the lattice: the fill returns; the first pass stores to every
  offset \<open>0 .. width * height * depth * 4 - 1\<close> exactly once; the sampling function is called
  once on every cell; the sample of the cell \<open>(x, y, z)\<close> is stored at the four offsets
  \<open>(x * 1 + y * width + z * width * height) * 4 + j\<close>; and after the second pass these four
  slots all hold the same remapped sample.
\<close>

theorem fill_writes_every_slot_once:
  assumes s: "width (m_summary vol) = w" "height (m_summary vol) = h" "depth (m_summary vol) = d"
    and dims: "1 \<le> w" "1 \<le> h" "1 \<le> d" and small: "4 * (w * h * d) \<le> INT_MAX"
    and ne: "\<not> bbox_empty (getIndexSpaceBoundingBox (m_grid vol))"
    and vs: "valid_schedule (CoordBBox (Coord 0 0 0) (Coord (w - 1) (h - 1) (d - 1))) sched"
    and buf: "voxels data = Some buf"
  shows "\<exists>r out. fillTextureBuffer sched vol data = Some r \<and> voxels (f_data r) = Some out \<and>
     distinct (map fst (f_stored r)) \<and> set (map fst (f_stored r)) = {0..4 * (w * h * d) - 1} \<and>
     distinct (f_called r) \<and>
     set (f_called r) = {c. 0 \<le> cx c \<and> cx c < w \<and> 0 \<le> cy c \<and> cy c < h \<and> 0 \<le> cz c \<and> cz c < d} \<and>
     (\<forall>x y z. 0 \<le> x \<and> x < w \<and> 0 \<le> y \<and> y < h \<and> 0 \<le> z \<and> z < d \<longrightarrow>
        (\<forall>j \<in> {0, 1, 2, 3}.
           ((x * 1 + y * w + z * (w * h)) * 4 + j, lattice_sample (m_grid vol) (Coord w h d) (Coord x y z))
             \<in> set (f_stored r) \<and>
           out ((x * 1 + y * w + z * (w * h)) * 4 + j)
             = unlerp (min_value (m_summary (f_volume r))) (max_value (m_summary (f_volume r)))
                 (Finite (lattice_sample (m_grid vol) (Coord w h d) (Coord x y z)))))"
proof -
  let ?cells = "bbox_cells (lattice_box w h d)"
  let ?f = "lattice_sample (m_grid vol) (Coord w h d)"
  let ?rng = "lattice_range (m_grid vol) w h d"
  have vs': "valid_schedule (lattice_box w h d) sched" using vs by (simp add: lattice_box_def)
  from fill_lattice [OF s dims small ne vs' buf]
  obtain r out where r: "fillTextureBuffer sched vol data = Some r"
    and d: "f_data r = data\<lparr>voxels := Some out\<rparr>"
    and p: "f_volume r = published vol ?rng"
    and st: "mset (map fst (f_stored r)) = mset [0..4 * (w * h * d) - 1]"
    and ca: "mset (f_called r) = mset ?cells"
    and cell: "\<forall>c \<in> set ?cells. \<forall>j \<in> {0, 1, 2, 3}.
        (4 * flat_index w h c + j, ?f c) \<in> set (f_stored r) \<and>
        out (4 * flat_index w h c + j) = unlerp (getMin ?rng) (getMax ?rng) (Finite (?f c))"
    by blast
  have 1: "voxels (f_data r) = Some out" unfolding d by simp
  have 2: "distinct (map fst (f_stored r))"
    using mset_eq_imp_distinct_iff [OF st] by simp
  have 3: "set (map fst (f_stored r)) = {0..4 * (w * h * d) - 1}"
    using mset_eq_setD [OF st] by simp
  have dc: "distinct ?cells" using dims by (intro distinct_lattice_cells) simp_all
  have 4: "distinct (f_called r)"
    using mset_eq_imp_distinct_iff [OF ca] dc by simp
  have "set (f_called r) = set ?cells" by (rule mset_eq_setD [OF ca])
  also have "\<dots> = {c. 0 \<le> cx c \<and> cx c < w \<and> 0 \<le> cy c \<and> cy c < h \<and> 0 \<le> cz c \<and> cz c < d}"
    by (auto simp: set_bbox_cells lattice_box_def)
  finally have 5: "set (f_called r)
      = {c. 0 \<le> cx c \<and> cx c < w \<and> 0 \<le> cy c \<and> cy c < h \<and> 0 \<le> cz c \<and> cz c < d}" .
  have 6: "((x * 1 + y * w + z * (w * h)) * 4 + j, ?f (Coord x y z)) \<in> set (f_stored r) \<and>
           out ((x * 1 + y * w + z * (w * h)) * 4 + j)
             = unlerp (min_value (m_summary (f_volume r))) (max_value (m_summary (f_volume r)))
                 (Finite (?f (Coord x y z)))"
    if b: "0 \<le> x \<and> x < w \<and> 0 \<le> y \<and> y < h \<and> 0 \<le> z \<and> z < d" and j: "j \<in> {0, 1, 2, 3}"
    for x y z and j :: int
  proof -
    have c: "Coord x y z \<in> set ?cells" using b by (simp only: in_lattice_cells)
    have e: "4 * flat_index w h (Coord x y z) = (x * 1 + y * w + z * (w * h)) * 4"
      by (simp add: flat_index_def)
    from ball2D [OF cell c j] show ?thesis
      unfolding e p by (simp add: published_summary)
  qed
  show ?thesis
    using r 1 2 3 4 5 6 by (intro exI [of _ r] exI [of _ out] conjI allI impI ballI) blast+
qed

text \<open>
  The amended claim C6 on a 2 x 2 x 2 lattice whose two slabs run on two threads, the
  upper slab first.
\<close>

theorem fill_writes_every_slot_once_witness:
  "\<exists>r out. fillTextureBuffer two_slabs (example_volume (example_grid ramp_field) (Coord 2 2 2))
              example_data = Some r \<and>
     voxels (f_data r) = Some out \<and> distinct (map fst (f_stored r)) \<and>
     set (map fst (f_stored r)) = {0..31} \<and> distinct (f_called r) \<and>
     (28, - 1) \<in> set (f_stored r) \<and> (31, - 1) \<in> set (f_stored r) \<and> out 28 = out 31"
proof -
  let ?V = "example_volume (example_grid ramp_field) (Coord 2 2 2)"
  have vs: "valid_schedule (CoordBBox (Coord 0 0 0) (Coord (2 - 1) (2 - 1) (2 - 1))) two_slabs"
    using two_slabs_valid by (simp add: two_slabs_def lattice_box_def)
  have ne: "\<not> bbox_empty (getIndexSpaceBoundingBox (m_grid ?V))"
    by (simp add: example_volume_sel example_grid_bbox bbox_empty_def)
  have v: "voxels example_data = Some example_buffer" by (simp add: example_data_def)
  have small: "4 * (2 * 2 * 2) \<le> INT_MAX" by (simp add: INT_MAX_def)
  from fill_writes_every_slot_once [of ?V 2 2 2 two_slabs example_data example_buffer,
      OF _ _ _ _ _ _ small ne vs v]
  obtain r out where r: "fillTextureBuffer two_slabs ?V example_data = Some r"
    and o: "voxels (f_data r) = Some out"
    and d: "distinct (map fst (f_stored r))" "set (map fst (f_stored r)) = {0..4 * (2 * 2 * 2) - 1}"
      "distinct (f_called r)"
    and c: "\<forall>x y z. 0 \<le> x \<and> x < 2 \<and> 0 \<le> y \<and> y < 2 \<and> 0 \<le> z \<and> z < 2 \<longrightarrow>
        (\<forall>j \<in> {0, 1, 2, 3}.
           ((x * 1 + y * 2 + z * (2 * 2)) * 4 + j, lattice_sample (m_grid ?V) (Coord 2 2 2) (Coord x y z))
             \<in> set (f_stored r) \<and>
           out ((x * 1 + y * 2 + z * (2 * 2)) * 4 + j)
             = unlerp (min_value (m_summary (f_volume r))) (max_value (m_summary (f_volume r)))
                 (Finite (lattice_sample (m_grid ?V) (Coord 2 2 2) (Coord x y z))))"
    by (auto simp: example_volume_sel)
  have s: "lattice_sample (m_grid ?V) (Coord 2 2 2) (Coord 1 1 1) = - 1"
    by (simp add: example_volume_sel example_lattice_sample ramp_field_def)
  have b: "0 \<le> (1::int) \<and> (1::int) < 2 \<and> 0 \<le> (1::int) \<and> (1::int) < 2 \<and> 0 \<le> (1::int) \<and> (1::int) < 2"
    by simp
  note cc = c [rule_format, OF b]
  have "(28, - 1) \<in> set (f_stored r) \<and> (31, - 1) \<in> set (f_stored r) \<and> out 28 = out 31"
    using cc [of 0] cc [of 3] unfolding s by simp
  with r o d show ?thesis by simp
qed

lemma wrap32_times4_le: "wrap32 (k * 4) \<le> 2147483644"
proof -
  define m where "m = (k * 4 + 2147483648) mod 4294967296"
  have "(4::int) dvd (k * 4 + 2147483648) mod 4294967296"
    by (intro dvd_mod) simp_all
  then obtain q where q: "m = 4 * q" unfolding m_def by (auto simp: dvd_def)
  have "m < 4294967296" unfolding m_def by simp
  then have "q < 1073741824" using q by simp
  then have "m \<le> 4294967292" using q by simp
  then show ?thesis by (simp add: wrap32_def m_def)
qed

lemma fill_stored:
  assumes s: "width (m_summary vol) = w" "height (m_summary vol) = h" "depth (m_summary vol) = d"
    and ext: "1 \<le> w" "w \<le> INT_MAX" "1 \<le> h" "h \<le> INT_MAX" "1 \<le> d" "d \<le> INT_MAX"
    and ne: "\<not> bbox_empty (getIndexSpaceBoundingBox (m_grid vol))"
    and buf: "voxels data = Some buf"
  shows "\<exists>r. fillTextureBuffer (one_box (Coord w h d)) vol data = Some r \<and>
     f_stored r = concat (map (cell_stores (lattice_sample (m_grid vol) (Coord w h d))
                                (Coord 1 w (wrap32 (w * h))))
                      (bbox_cells (lattice_box w h d)))"
proof -
  have dm: "CoordBBox (Coord 0 0 0) (coord_sub (Coord w h d) (Coord 1 1 1)) = lattice_box w h d"
    using ext by (simp add: lattice_box_def lattice_domain_eq)
  have vs: "valid_schedule (CoordBBox (Coord 0 0 0) (coord_sub (Coord w h d) (Coord 1 1 1)))
      (one_box (Coord w h d))"
    unfolding dm using ext by (intro one_box_valid)
  have sc: "sched_cells (one_box (Coord w h d)) = bbox_cells (lattice_box w h d)"
    by (simp add: sched_cells_def one_box_def dm)
  have "sampleVolume (one_box (Coord w h d)) (Coord w h d)
          (lattice_sample (m_grid vol) (Coord w h d)) ValueRange buf \<noteq> None \<and>
        stored (the (sampleVolume (one_box (Coord w h d)) (Coord w h d)
          (lattice_sample (m_grid vol) (Coord w h d)) ValueRange buf))
        = concat (map (cell_stores (lattice_sample (m_grid vol) (Coord w h d))
                                (Coord 1 w (wrap32 (w * h))))
                      (bbox_cells (lattice_box w h d)))"
    using sampleVolume_eq [of "Coord w h d" "one_box (Coord w h d)"
        "lattice_sample (m_grid vol) (Coord w h d)" ValueRange buf, OF _ _ _ _ _ _ vs] ext
    by (simp add: sc)
  then obtain q where q: "sampleVolume (one_box (Coord w h d)) (Coord w h d)
          (lattice_sample (m_grid vol) (Coord w h d)) ValueRange buf = Some q"
    "stored q = concat (map (cell_stores (lattice_sample (m_grid vol) (Coord w h d))
                                (Coord 1 w (wrap32 (w * h))))
                      (bbox_cells (lattice_box w h d)))"
    by auto
  show ?thesis
    by (simp add: fillTextureBuffer_def buf s sampleGrid_nonempty [OF ne] q)
qed

text \<open>
  Claim C6, as stated for all extents, fails where the \<open>int\<close> offset overflows: on a
  2048 x 2048 x 129 lattice the sample of the cell \<open>(0, 0, 128)\<close> is stored at the offset
  \<open>-2147483648\<close>, and nothing is stored at the offset
  \<open>(0 * 1 + 0 * 2048 + 128 * 2048 * 2048) * 4 = 2147483648\<close> the claim names.
\<close>

theorem large_lattice_offset_wraps_counterexample:
  "fillTextureBuffer (one_box (Coord 2048 2048 129)) large_volume example_data \<noteq> None \<and>
   (- 2147483648, lattice_sample (m_grid large_volume) (Coord 2048 2048 129) (Coord 0 0 128))
     \<in> set (f_stored (the (fillTextureBuffer (one_box (Coord 2048 2048 129)) large_volume example_data))) \<and>
   (0 * 1 + 0 * 2048 + 128 * (2048 * 2048)) * 4
     \<notin> fst ` set (f_stored (the (fillTextureBuffer (one_box (Coord 2048 2048 129)) large_volume example_data)))"
proof -
  let ?f = "lattice_sample (m_grid large_volume) (Coord 2048 2048 129)"
  let ?stride = "Coord 1 2048 (wrap32 (2048 * 2048))"
  have ne: "\<not> bbox_empty (getIndexSpaceBoundingBox (m_grid large_volume))"
    by (simp add: large_volume_def example_volume_sel example_grid_bbox bbox_empty_def)
  have v: "voxels example_data = Some example_buffer" by (simp add: example_data_def)
  have dims: "width (m_summary large_volume) = 2048" "height (m_summary large_volume) = 2048"
    "depth (m_summary large_volume) = 129"
    by (simp_all add: large_volume_def example_volume_sel)
  have rng: "(1::int) \<le> 2048" "(2048::int) \<le> INT_MAX" "(1::int) \<le> 129" "(129::int) \<le> INT_MAX"
    by (simp_all add: INT_MAX_def)
  from fill_stored [OF dims rng(1,2) rng(1,2) rng(3,4) ne v]
  obtain r where r: "fillTextureBuffer (one_box (Coord 2048 2048 129)) large_volume example_data = Some r"
    and st: "f_stored r = concat (map (cell_stores ?f ?stride) (bbox_cells (lattice_box 2048 2048 129)))"
    by (elim exE conjE)
  have c: "Coord 0 0 128 \<in> set (bbox_cells (lattice_box 2048 2048 129))"
    by (simp add: in_lattice_cells)
  have li: "linear_index ?stride (Coord 0 0 128) = - 2147483648"
    by (simp add: linear_index_def dot_def wrap32_def)
  have "(linear_index ?stride (Coord 0 0 128) + 0, ?f (Coord 0 0 128))
      \<in> set (cell_stores ?f ?stride (Coord 0 0 128))"
    by (rule cell_stores_member) simp
  then have "(- 2147483648, ?f (Coord 0 0 128)) \<in> set (cell_stores ?f ?stride (Coord 0 0 128))"
    unfolding li by simp
  then have m: "(- 2147483648, ?f (Coord 0 0 128)) \<in> set (f_stored r)"
    unfolding st set_concat set_map using c by (intro UnionI [OF imageI [OF imageI]])
  have n: "2147483648 \<notin> fst ` set (f_stored r)"
  proof
    assume "2147483648 \<in> fst ` set (f_stored r)"
    then obtain p where p: "p \<in> set (f_stored r)" "2147483648 = fst p" by (rule imageE)
    obtain c where c: "p \<in> set (cell_stores ?f ?stride c)"
      using in_concat_map [OF p(1) [unfolded st]] by (rule bexE)
    have "p = (2147483648, snd p)" using p(2) by (cases p) simp
    then have "(2147483648, snd p) \<in> set (cell_stores ?f ?stride c)" using c by simp
    from cell_stores_cases [OF this]
    obtain j where j: "j \<in> {0, 1, 2, 3}" "2147483648 = linear_index ?stride c + j"
      by (rule bexE)
    have "linear_index ?stride c \<le> 2147483644"
      unfolding linear_index_def by (rule wrap32_times4_le)
    with j(2) have "j \<ge> 4" by simp
    with j(1) show False by simp
  qed
  show ?thesis using m n by (simp add: r)
qed

lemma example_fill_lattice:
  assumes "1 \<le> w" "1 \<le> h" "1 \<le> d" and "4 * (w * h * d) \<le> INT_MAX"
  shows "\<exists>r out. fillTextureBuffer (one_box (Coord w h d))
                    (example_volume (example_grid fld) (Coord w h d)) example_data = Some r \<and>
     voxels (f_data r) = Some out \<and>
     min_value (m_summary (f_volume r)) = getMin (lattice_range (example_grid fld) w h d) \<and>
     max_value (m_summary (f_volume r)) = getMax (lattice_range (example_grid fld) w h d) \<and>
     (\<forall>c \<in> set (bbox_cells (lattice_box w h d)). \<forall>j \<in> {0, 1, 2, 3}.
        out (4 * flat_index w h c + j)
          = unlerp (getMin (lattice_range (example_grid fld) w h d))
              (getMax (lattice_range (example_grid fld) w h d))
              (Finite (lattice_sample (example_grid fld) (Coord w h d) c))) \<and>
     (\<forall>i. 0 \<le> i \<and> i < 4 * (w * h * d) \<longrightarrow>
        (\<exists>c \<in> set (bbox_cells (lattice_box w h d)).
           out i = unlerp (getMin (lattice_range (example_grid fld) w h d))
                     (getMax (lattice_range (example_grid fld) w h d))
                     (Finite (lattice_sample (example_grid fld) (Coord w h d) c))))"
proof -
  let ?V = "example_volume (example_grid fld) (Coord w h d)"
  have s: "width (m_summary ?V) = w" "height (m_summary ?V) = h" "depth (m_summary ?V) = d"
    by (simp_all add: example_volume_sel)
  have g: "m_grid ?V = example_grid fld" by (simp add: example_volume_sel)
  have ne: "\<not> bbox_empty (getIndexSpaceBoundingBox (m_grid ?V))"
    by (simp add: g example_grid_bbox bbox_empty_def)
  have vs: "valid_schedule (lattice_box w h d) (one_box (Coord w h d))"
    using assms(1-3) lattice_box_volume(1-3) [OF assms] by (intro one_box_valid)
  have v: "voxels example_data = Some example_buffer" by (simp add: example_data_def)
  from fill_lattice [OF s assms ne vs v]
  obtain r out where r: "fillTextureBuffer (one_box (Coord w h d)) ?V example_data = Some r"
    and d: "f_data r = example_data\<lparr>voxels := Some out\<rparr>"
    and p: "f_volume r = published ?V (lattice_range (m_grid ?V) w h d)"
    and cell: "\<forall>c \<in> set (bbox_cells (lattice_box w h d)). \<forall>j \<in> {0, 1, 2, 3}.
        (4 * flat_index w h c + j, lattice_sample (m_grid ?V) (Coord w h d) c) \<in> set (f_stored r) \<and>
        out (4 * flat_index w h c + j)
          = unlerp (getMin (lattice_range (m_grid ?V) w h d)) (getMax (lattice_range (m_grid ?V) w h d))
              (Finite (lattice_sample (m_grid ?V) (Coord w h d) c))"
    and ins: "\<forall>i. 0 \<le> i \<and> i < 4 * (w * h * d) \<longrightarrow>
        (\<exists>c \<in> set (bbox_cells (lattice_box w h d)).
           out i = unlerp (getMin (lattice_range (m_grid ?V) w h d))
                     (getMax (lattice_range (m_grid ?V) w h d))
                     (Finite (lattice_sample (m_grid ?V) (Coord w h d) c)))"
    by blast
  have 1: "voxels (f_data r) = Some out" unfolding d by simp
  have 2: "min_value (m_summary (f_volume r)) = getMin (lattice_range (example_grid fld) w h d)"
    "max_value (m_summary (f_volume r)) = getMax (lattice_range (example_grid fld) w h d)"
    unfolding p g by (simp_all add: published_summary)
  have 3: "out (4 * flat_index w h c + j)
          = unlerp (getMin (lattice_range (example_grid fld) w h d))
              (getMax (lattice_range (example_grid fld) w h d))
              (Finite (lattice_sample (example_grid fld) (Coord w h d) c))"
    if "c \<in> set (bbox_cells (lattice_box w h d))" "j \<in> {0, 1, 2, 3}" for c and j :: int
    using ball2D [OF cell that] unfolding g by (rule conjunct2)
  show ?thesis
    using r 1 2 3 ins [unfolded g]
    by (intro exI [of _ r] exI [of _ out] conjI ballI) simp_all
qed

text \<open>
  Claim C7. After a fill with a non-degenerate reduced range every sample should lie in
  \<open>[0, 1]\<close>, with 0 and 1 both attained. On a 2 x 1 x 1 lattice whose two samples are
  \<open>-2\<close> and \<open>-1\<close> the reduced maximum is the constant the default range starts with, not
  \<open>-1\<close>, and the remapped buffer holds 0 and a value below 1: no entry is 1.
\<close>

theorem negative_field_never_reaches_one:
  "\<exists>r out. fillTextureBuffer (one_box (Coord 2 1 1))
               (example_volume (example_grid ramp_field) (Coord 2 1 1)) example_data = Some r \<and>
     voxels (f_data r) = Some out \<and>
     min_value (m_summary (f_volume r)) = - 2 \<and> max_value (m_summary (f_volume r)) = FLT_MIN \<and>
     map out [0, 1, 2, 3, 4, 5, 6, 7]
       = [Finite 0, Finite 0, Finite 0, Finite 0,
          Finite (1 / (FLT_MIN + 2)), Finite (1 / (FLT_MIN + 2)),
          Finite (1 / (FLT_MIN + 2)), Finite (1 / (FLT_MIN + 2))] \<and>
     1 / (FLT_MIN + 2) < 1"
proof -
  from example_fill_lattice [of 2 1 1 ramp_field]
  obtain r out where r: "fillTextureBuffer (one_box (Coord 2 1 1))
               (example_volume (example_grid ramp_field) (Coord 2 1 1)) example_data = Some r"
    and o: "voxels (f_data r) = Some out"
    and mn: "min_value (m_summary (f_volume r)) = getMin (lattice_range (example_grid ramp_field) 2 1 1)"
    and mx: "max_value (m_summary (f_volume r)) = getMax (lattice_range (example_grid ramp_field) 2 1 1)"
    and cell: "\<forall>c \<in> set (bbox_cells (lattice_box 2 1 1)). \<forall>j \<in> {0, 1, 2, 3}.
        out (4 * flat_index 2 1 c + j)
          = unlerp (getMin (lattice_range (example_grid ramp_field) 2 1 1))
              (getMax (lattice_range (example_grid ramp_field) 2 1 1))
              (Finite (lattice_sample (example_grid ramp_field) (Coord 2 1 1) c))"
    by (auto simp: INT_MAX_def)
  have c0: "Coord 0 0 0 \<in> set (bbox_cells (lattice_box 2 1 1))"
    and c1: "Coord 1 0 0 \<in> set (bbox_cells (lattice_box 2 1 1))"
    by (simp_all add: cells_2_1_1)
  have u0: "unlerp (- 2) FLT_MIN (Finite (- 2)) = Finite 0"
    using FLT_MIN_pos by (simp add: unlerp_def)
  have u1: "unlerp (- 2) FLT_MIN (Finite (- 1)) = Finite (1 / (FLT_MIN + 2))"
    using FLT_MIN_pos by (simp add: unlerp_def)
  note a = ball2D [OF cell c0, unfolded ramp_range ramp_samples getMin_def getMax_def, simplified]
  note b = ball2D [OF cell c1, unfolded ramp_range ramp_samples getMin_def getMax_def, simplified]
  have z: "out 0 = Finite 0" "out 1 = Finite 0" "out 2 = Finite 0" "out 3 = Finite 0"
    using a [of 0] a [of 1] a [of 2] a [of 3] by (simp_all add: flat_index_def u0)
  have h: "out 4 = Finite (1 / (FLT_MIN + 2))" "out 5 = Finite (1 / (FLT_MIN + 2))"
    "out 6 = Finite (1 / (FLT_MIN + 2))" "out 7 = Finite (1 / (FLT_MIN + 2))"
    using b [of 0] b [of 1] b [of 2] b [of 3] by (simp_all add: flat_index_def u1)
  have lt: "1 / (FLT_MIN + 2) < 1" using FLT_MIN_pos by simp
  show ?thesis
    using r o lt
    by (intro exI [of _ r] exI [of _ out])
       (simp add: mn mx ramp_range getMin_def getMax_def z h)
qed

lemma constant_range:
  "lattice_range (example_grid (constant_field 5)) 2 2 2 = \<lparr>m_min = 5, m_max = 5\<rparr>"
  by (simp add: lattice_range_def cells_2_2_2 example_lattice_sample constant_field_def
      range_of_def addValue_def ValueRange_def FLT_MAX_def FLT_MIN_def)

text \<open>
  Claim C3. A constant field should not be remapped to NaN. On the specification's
  scenario, the constant field 5 on a 2 x 2 x 2 lattice, the reduced range is \<open>(5, 5)\<close>
  and every one of the 32 buffer entries is the NaN of \<open>0 / 0\<close>.
\<close>

theorem constant_field_normalizes_to_NaN:
  "\<exists>r out. fillTextureBuffer (one_box (Coord 2 2 2))
               (example_volume (example_grid (constant_field 5)) (Coord 2 2 2)) example_data = Some r \<and>
     voxels (f_data r) = Some out \<and>
     min_value (m_summary (f_volume r)) = 5 \<and> max_value (m_summary (f_volume r)) = 5 \<and>
     map out [0..31] = replicate 32 NaN"
proof -
  from example_fill_lattice [of 2 2 2 "constant_field 5"]
  obtain r out where r: "fillTextureBuffer (one_box (Coord 2 2 2))
               (example_volume (example_grid (constant_field 5)) (Coord 2 2 2)) example_data = Some r"
    and o: "voxels (f_data r) = Some out"
    and mn: "min_value (m_summary (f_volume r))
        = getMin (lattice_range (example_grid (constant_field 5)) 2 2 2)"
    and mx: "max_value (m_summary (f_volume r))
        = getMax (lattice_range (example_grid (constant_field 5)) 2 2 2)"
    and ins: "\<forall>i. 0 \<le> i \<and> i < 4 * (2 * 2 * 2) \<longrightarrow>
        (\<exists>c \<in> set (bbox_cells (lattice_box 2 2 2)).
           out i = unlerp (getMin (lattice_range (example_grid (constant_field 5)) 2 2 2))
                     (getMax (lattice_range (example_grid (constant_field 5)) 2 2 2))
                     (Finite (lattice_sample (example_grid (constant_field 5)) (Coord 2 2 2) c)))"
    by (auto simp: INT_MAX_def)
  have u: "unlerp 5 5 (Finite 5) = NaN" by (simp add: unlerp_def)
  have n: "out i = NaN" if "0 \<le> i \<and> i < 32" for i
  proof -
    from that have "0 \<le> i \<and> i < 4 * (2 * 2 * 2)" by simp
    with ins obtain c where "out i = unlerp (getMin (lattice_range (example_grid (constant_field 5)) 2 2 2))
                     (getMax (lattice_range (example_grid (constant_field 5)) 2 2 2))
                     (Finite (lattice_sample (example_grid (constant_field 5)) (Coord 2 2 2) c))"
      by blast
    then show ?thesis
      by (simp add: constant_range getMin_def getMax_def example_lattice_sample constant_field_def u)
  qed
  have "map out [0..31] = map (\<lambda>i. NaN) [0..31]"
    by (rule map_cong [OF refl]) (simp add: n)
  then have m: "map out [0..31] = replicate 32 NaN"
    by (simp add: map_replicate_const)
  show ?thesis
    using r o
    by (intro exI [of _ r] exI [of _ out])
       (simp only: mn mx constant_range getMin_def getMax_def m, simp)
qed

section \<open>What holds of the remapped samples\<close>

lemma unlerp_unit_interval:
  assumes "a \<le> x" "x \<le> b" "a < b"
  shows "\<exists>v. unlerp a b (Finite x) = Finite v \<and> 0 \<le> v \<and> v \<le> 1"
  using assms by (simp add: unlerp_def)

lemma unlerp_at_min: "a < b \<Longrightarrow> unlerp a b (Finite a) = Finite 0"
  by (simp add: unlerp_def)

lemma unlerp_at_max: "a < b \<Longrightarrow> unlerp a b (Finite b) = Finite 1"
  by (simp add: unlerp_def)

lemma range_of_bounds:
  assumes "v \<in> set vs"
  shows "getMin (range_of vs) \<le> v" "v \<le> getMax (range_of vs)"
  using assms by (simp_all add: getMin_def getMax_def range_of_min range_of_max)

lemma range_of_min_attained:
  assumes "vs \<noteq> []" "\<forall>v \<in> set vs. v \<le> FLT_MAX"
  shows "getMin (range_of vs) \<in> set vs"
proof -
  have "Min (insert FLT_MAX (set vs)) \<in> insert FLT_MAX (set vs)" by (rule Min_in) simp_all
  moreover have "Min (insert FLT_MAX (set vs)) = FLT_MAX \<Longrightarrow> FLT_MAX \<in> set vs"
  proof -
    assume e: "Min (insert FLT_MAX (set vs)) = FLT_MAX"
    from assms(1) obtain v where v: "v \<in> set vs" by (cases vs) auto
    then have "Min (insert FLT_MAX (set vs)) \<le> v" by simp
    with e assms(2) v have "v = FLT_MAX" by force
    with v show ?thesis by simp
  qed
  ultimately show ?thesis by (auto simp: getMin_def range_of_min)
qed

lemma range_of_max_attained:
  assumes "v \<in> set vs" "FLT_MIN \<le> v"
  shows "getMax (range_of vs) \<in> set vs"
proof -
  have "Max (insert FLT_MIN (set vs)) \<in> insert FLT_MIN (set vs)" by (rule Max_in) simp_all
  moreover have "Max (insert FLT_MIN (set vs)) = FLT_MIN \<Longrightarrow> FLT_MIN \<in> set vs"
  proof -
    assume e: "Max (insert FLT_MIN (set vs)) = FLT_MIN"
    have "v \<le> Max (insert FLT_MIN (set vs))" using assms(1) by simp
    with e assms(2) have "v = FLT_MIN" by simp
    with assms(1) show ?thesis by simp
  qed
  ultimately show ?thesis by (auto simp: getMax_def range_of_max)
qed

text \<open>
  The part of range soundness that does not depend on the initial maximum: with a
  non-degenerate reduced range and samples that are floats, every remapped entry lies
  in \<open>[0, 1]\<close> and 0 is attained; 1 is attained as soon as one sample is at least the
  constant the default range starts its maximum with.
\<close>

lemma fill_normalized:
  assumes s: "width (m_summary vol) = w" "height (m_summary vol) = h" "depth (m_summary vol) = d"
    and dims: "1 \<le> w" "1 \<le> h" "1 \<le> d" and small: "4 * (w * h * d) \<le> INT_MAX"
    and ne: "\<not> bbox_empty (getIndexSpaceBoundingBox (m_grid vol))"
    and vs: "valid_schedule (lattice_box w h d) sched"
    and buf: "voxels data = Some buf"
    and fin: "\<forall>p. wsSample (m_grid vol) p \<le> FLT_MAX"
    and nd: "getMin (lattice_range (m_grid vol) w h d) < getMax (lattice_range (m_grid vol) w h d)"
  shows "\<exists>r out. fillTextureBuffer sched vol data = Some r \<and> voxels (f_data r) = Some out \<and>
     (\<forall>i. 0 \<le> i \<and> i < 4 * (w * h * d) \<longrightarrow> (\<exists>v. out i = Finite v \<and> 0 \<le> v \<and> v \<le> 1)) \<and>
     (\<exists>i. 0 \<le> i \<and> i < 4 * (w * h * d) \<and> out i = Finite 0) \<and>
     ((\<exists>c \<in> set (bbox_cells (lattice_box w h d)).
          FLT_MIN \<le> lattice_sample (m_grid vol) (Coord w h d) c) \<longrightarrow>
      (\<exists>i. 0 \<le> i \<and> i < 4 * (w * h * d) \<and> out i = Finite 1))"
proof -
  let ?cells = "bbox_cells (lattice_box w h d)"
  let ?f = "lattice_sample (m_grid vol) (Coord w h d)"
  let ?rng = "lattice_range (m_grid vol) w h d"
  from fill_lattice [OF s dims small ne vs buf]
  obtain r out where r: "fillTextureBuffer sched vol data = Some r"
    and d: "f_data r = data\<lparr>voxels := Some out\<rparr>"
    and cell: "\<forall>c \<in> set ?cells. \<forall>j \<in> {0, 1, 2, 3}.
        (4 * flat_index w h c + j, ?f c) \<in> set (f_stored r) \<and>
        out (4 * flat_index w h c + j) = unlerp (getMin ?rng) (getMax ?rng) (Finite (?f c))"
    and ins: "\<forall>i. 0 \<le> i \<and> i < 4 * (w * h * d) \<longrightarrow>
        (\<exists>c \<in> set ?cells. out i = unlerp (getMin ?rng) (getMax ?rng) (Finite (?f c)))"
    by blast
  have o: "voxels (f_data r) = Some out" unfolding d by simp
  have rng: "?rng = range_of (map ?f ?cells)" by (simp add: lattice_range_def)
  have nonempty: "?cells \<noteq> []"
    using dims by (intro bbox_cells_nonempty) (simp add: bbox_empty_def lattice_box_def)
  have at: "0 \<le> 4 * flat_index w h c + 0 \<and> 4 * flat_index w h c + 0 < 4 * (w * h * d) \<and>
      out (4 * flat_index w h c + 0) = unlerp (getMin ?rng) (getMax ?rng) (Finite (?f c))"
    if c: "c \<in> set ?cells" for c
  proof -
    have b: "0 \<le> flat_index w h c" "flat_index w h c < w * h * d"
      using flat_index_bounds [OF _ _ _ c] dims by simp_all
    have "out (4 * flat_index w h c + 0) = unlerp (getMin ?rng) (getMax ?rng) (Finite (?f c))"
      using ball2D [OF cell c, of 0] by simp
    then show ?thesis using b by simp
  qed
  have 1: "\<exists>v. out i = Finite v \<and> 0 \<le> v \<and> v \<le> 1" if "0 \<le> i \<and> i < 4 * (w * h * d)" for i
  proof -
    from ins that obtain c where c: "c \<in> set ?cells"
      and e: "out i = unlerp (getMin ?rng) (getMax ?rng) (Finite (?f c))" by blast
    have m: "?f c \<in> set (map ?f ?cells)" using c by simp
    show ?thesis
      unfolding e using range_of_bounds [OF m] nd unfolding rng by (intro unlerp_unit_interval)
  qed
  have 2: "\<exists>i. 0 \<le> i \<and> i < 4 * (w * h * d) \<and> out i = Finite 0"
  proof -
    have "getMin (range_of (map ?f ?cells)) \<in> set (map ?f ?cells)"
      using nonempty fin
      by (intro range_of_min_attained) (simp_all add: lattice_sample_def sampling_func_def)
    then obtain c where c: "c \<in> set ?cells" "?f c = getMin ?rng" unfolding rng by auto
    from at [OF c(1)] show ?thesis unfolding c(2) unlerp_at_min [OF nd] by blast
  qed
  have 3: "\<exists>i. 0 \<le> i \<and> i < 4 * (w * h * d) \<and> out i = Finite 1"
    if "\<exists>c \<in> set ?cells. FLT_MIN \<le> ?f c"
  proof -
    from that obtain c0 where c0: "c0 \<in> set ?cells" "FLT_MIN \<le> ?f c0" by blast
    then have "?f c0 \<in> set (map ?f ?cells)" by simp
    from range_of_max_attained [OF this c0(2)]
    obtain c where c: "c \<in> set ?cells" "?f c = getMax ?rng" unfolding rng by auto
    from at [OF c(1)] show ?thesis unfolding c(2) unlerp_at_max [OF nd] by blast
  qed
  show ?thesis
    using r o 1 2 3 by (intro exI [of _ r] exI [of _ out] conjI allI impI) blast+
qed

end
